theory Spec2Isabelle
  imports Complex_Main "HOL-Library.AList"
begin

section \<open>Python values used by the keyword library\<close>

text \<open>
  A Python \<open>str\<close> is a sequence of Unicode code points; it is modelled as a list of
  natural numbers, one per code point. \<open>str\<close> turns an ASCII literal of the source into
  such a list.
\<close>

type_synonym pystr = "nat list"

definition str :: "string \<Rightarrow> pystr" where
  "str cs = map of_char cs"

text \<open>
  The code points for which \<open>str.isspace\<close> holds; \<open>str.strip()\<close> and \<open>str.split()\<close>
  without arguments use exactly this set.
\<close>

definition is_space :: "nat \<Rightarrow> bool" where
  "is_space c =
     ((9 \<le> c \<and> c \<le> 13) \<or> (28 \<le> c \<and> c \<le> 32) \<or> c = 133 \<or> c = 160 \<or> c = 5760
      \<or> (8192 \<le> c \<and> c \<le> 8202) \<or> c = 8232 \<or> c = 8233 \<or> c = 8239 \<or> c = 8287
      \<or> c = 12288)"

definition strip :: "pystr \<Rightarrow> pystr" where
  "strip s = rev (dropWhile is_space (rev (dropWhile is_space s)))"

text \<open>
  \<open>str.split()\<close>: the scan keeps the token being read in \<open>cur\<close>; a white-space
  character ends a token that has started and is skipped otherwise.
\<close>

fun split_scan :: "pystr \<Rightarrow> pystr \<Rightarrow> pystr list" where
  "split_scan cur [] = (if cur = [] then [] else [cur])"
| "split_scan cur (c # cs) =
     (if is_space c
      then (if cur = [] then split_scan [] cs else cur # split_scan [] cs)
      else split_scan (cur @ [c]) cs)"

definition split :: "pystr \<Rightarrow> pystr list" where
  "split s = split_scan [] s"

text \<open>Decimal notation of integers, as \<open>str(n)\<close> and the f-strings of the source print it.\<close>

fun digits :: "nat \<Rightarrow> nat \<Rightarrow> pystr" where
  "digits 0 n = []"
| "digits (Suc k) n = (if n < 10 then [48 + n] else digits k (n div 10) @ [48 + n mod 10])"

definition str_nat :: "nat \<Rightarrow> pystr" where
  "str_nat n = digits (Suc n) n"

definition str_int :: "int \<Rightarrow> pystr" where
  "str_int i = (if i < 0 then 45 # str_nat (nat (- i)) else str_nat (nat i))"

text \<open>
  A Python \<open>float\<close>. Every finite double is a rational number, and the comparisons of
  two finite doubles are the comparisons of these rationals, so a finite value is
  represented by the rational it denotes; the negative zero, the infinities and NaN are
  values of their own.
\<close>

datatype pyfloat = Fin rat | NegZero | PosInf | NegInf | NaN

text \<open>
  \<open>a >= b\<close> and \<open>a < b\<close> on floats: false as soon as one side is NaN, the order of the
  extended real line otherwise (the two zeros are equal).
\<close>

fun float_ge :: "pyfloat \<Rightarrow> pyfloat \<Rightarrow> bool" where
  "float_ge NaN b = False"
| "float_ge a NaN = False"
| "float_ge PosInf b = True"
| "float_ge a NegInf = True"
| "float_ge NegInf b = False"
| "float_ge a PosInf = False"
| "float_ge (Fin p) (Fin q) = (q \<le> p)"
| "float_ge (Fin p) NegZero = (0 \<le> p)"
| "float_ge NegZero (Fin q) = (q \<le> 0)"
| "float_ge NegZero NegZero = True"

fun float_lt :: "pyfloat \<Rightarrow> pyfloat \<Rightarrow> bool" where
  "float_lt NaN b = False"
| "float_lt a NaN = False"
| "float_lt PosInf b = False"
| "float_lt a NegInf = False"
| "float_lt NegInf b = True"
| "float_lt a PosInf = True"
| "float_lt (Fin p) (Fin q) = (p < q)"
| "float_lt (Fin p) NegZero = (p < 0)"
| "float_lt NegZero (Fin q) = (0 < q)"
| "float_lt NegZero NegZero = False"

text \<open>
  The format \<open>:.3f\<close>: the exact value is rounded to a multiple of one thousandth, a
  tie going to the even neighbour, and printed with its sign, its integer part and three
  decimals.
\<close>

definition round_half_even :: "rat \<Rightarrow> int" where
  "round_half_even q =
     (let f = \<lfloor>q\<rfloor>; d = q - of_int f in
      if d < 1 / 2 then f
      else if 1 / 2 < d then f + 1
      else if even f then f else f + 1)"

definition thousandths :: "nat \<Rightarrow> pystr" where
  "thousandths n =
     str_nat (n div 1000) @ [46, 48 + n mod 1000 div 100, 48 + n mod 100 div 10, 48 + n mod 10]"

fun format_3f :: "pyfloat \<Rightarrow> pystr" where
  "format_3f (Fin q) =
     (if q < 0 then [45] else []) @ thousandths (nat (round_half_even (\<bar>q\<bar> * 1000)))"
| "format_3f NegZero = str ''-0.000''"
| "format_3f PosInf = str ''inf''"
| "format_3f NegInf = str ''-inf''"
| "format_3f NaN = str ''nan''"

text \<open>\<open>int(f)\<close> on a float: the fractional part is dropped, towards zero.\<close>

definition trunc :: "rat \<Rightarrow> int" where
  "trunc q = (if 0 \<le> q then \<lfloor>q\<rfloor> else \<lceil>q\<rceil>)"

text \<open>The values that JSON decoding and the driver's script bridge hand to Python.\<close>

datatype pyval =
    PNone
  | PBool bool
  | PInt int
  | PFloat pyfloat
  | PStr pystr
  | PList "pyval list"
  | PDict "(pystr \<times> pyval) list"

datatype error =
    Exception pystr
  | AssertionError pystr
  | RuntimeError pystr
  | AttributeError pystr
  | KeyError pystr
  | IndexError
  | TypeError
  | ValueError
  | OverflowError
  | LibraryError pystr

definition bind :: "error + 'a \<Rightarrow> ('a \<Rightarrow> error + 'b) \<Rightarrow> error + 'b" where
  "bind r f = (case r of Inl e \<Rightarrow> Inl e | Inr v \<Rightarrow> f v)"

fun int_of_float :: "pyfloat \<Rightarrow> error + int" where
  "int_of_float (Fin q) = Inr (trunc q)"
| "int_of_float NegZero = Inr 0"
| "int_of_float PosInf = Inl OverflowError"
| "int_of_float NegInf = Inl OverflowError"
| "int_of_float NaN = Inl ValueError"

text \<open>\<open>xs[i]\<close> for an index that is not negative.\<close>

definition list_getitem :: "'a list \<Rightarrow> nat \<Rightarrow> error + 'a" where
  "list_getitem xs i = (if i < length xs then Inr (xs ! i) else Inl IndexError)"

text \<open>\<open>k in t\<close> for two strings: \<open>k\<close> occurs in \<open>t\<close>.\<close>

fun contains_str :: "pystr \<Rightarrow> pystr \<Rightarrow> bool" where
  "contains_str k [] = (k = [])"
| "contains_str k (c # cs) = (take (length k) (c # cs) = k \<or> contains_str k cs)"

text \<open>
  \<open>key in data\<close> and \<open>data[key]\<close> for a string \<open>key\<close> and a decoded value: membership
  among the keys of a dictionary, among the elements of a list, or as a substring of a
  string, and a \<open>TypeError\<close> for a value that is no container; subscripting by a string
  is defined on dictionaries only.
\<close>

fun py_contains :: "pyval \<Rightarrow> pystr \<Rightarrow> error + bool" where
  "py_contains (PDict d) key = Inr (key \<in> fst ` set d)"
| "py_contains (PList xs) key = Inr (PStr key \<in> set xs)"
| "py_contains (PStr t) key = Inr (contains_str key t)"
| "py_contains v key = Inl TypeError"

fun py_getitem :: "pyval \<Rightarrow> pystr \<Rightarrow> error + pyval" where
  "py_getitem (PDict d) key =
     (case map_of d key of None \<Rightarrow> Inl (KeyError key) | Some v \<Rightarrow> Inr v)"
| "py_getitem v key = Inl TypeError"

fun type_name :: "pyval \<Rightarrow> pystr" where
  "type_name PNone = str ''NoneType''"
| "type_name (PBool b) = str ''bool''"
| "type_name (PInt i) = str ''int''"
| "type_name (PFloat f) = str ''float''"
| "type_name (PStr t) = str ''str''"
| "type_name (PList xs) = str ''list''"
| "type_name (PDict d) = str ''dict''"

text \<open>\<open>v.strip()\<close>: only a string has the method.\<close>

fun py_strip :: "pyval \<Rightarrow> error + pystr" where
  "py_strip (PStr t) = Inr (strip t)"
| "py_strip v =
     Inl (AttributeError
       ([39] @ type_name v @ [39] @ str '' object has no attribute '' @ [39] @ str ''strip'' @ [39]))"

section \<open>The library object and its collaborators\<close>

type_synonym caps = "(pystr \<times> pystr) list"

text \<open>
  The arguments of \<open>driver.execute_script\<close> that the keywords build:
  \<open>"mobile: clickGesture"\<close> with \<open>{"x": x, "y": y}\<close> and \<open>"mobile: shell"\<close> with
  \<open>{"command": c, "args": as, "timeout": t}\<close>.
\<close>

datatype script = ClickGesture int int | Shell pystr "pystr list" int

text \<open>
  Every call that leaves the process towards the Appium server is recorded, in order:
  the construction of a driver (\<open>webdriver.Remote\<close>, with the capabilities loaded into
  its options) and the methods called on a driver, which is named by its identity.
\<close>

datatype call =
    Remote caps
  | Quit nat
  | Save_screenshot nat
  | Execute_script nat script

text \<open>
  \<open>drivers\<close> is the dictionary \<open>self.drivers\<close> in insertion order; \<open>config_defaults\<close> and
  \<open>config_sections\<close> are the \<open>ConfigParser\<close> read at construction; \<open>calls\<close> is the
  record of the calls made so far and \<open>next_driver\<close> the identity of the next driver
  object to be constructed.
\<close>

record state =
  drivers :: "(pystr \<times> nat) list"
  config_defaults :: caps
  config_sections :: "(pystr \<times> caps) list"
  calls :: "call list"
  next_driver :: nat

text \<open>
  What \<open>pytesseract.image_to_data\<close> returns with \<open>Output.DICT\<close>: parallel lists, of
  which the keyword reads the words and their boxes.
\<close>

record ocr_data =
  ocr_text :: "pystr list"
  ocr_left :: "int list"
  ocr_top :: "int list"
  ocr_width :: "int list"
  ocr_height :: "int list"

text \<open>
  What the template matching of a reference image against the screenshot yields:
  \<open>max_val\<close> and \<open>max_loc\<close> of \<open>cv2.minMaxLoc\<close>, and \<open>ref.shape[:2]\<close>, which is
  (height, width).
\<close>

record template_match =
  max_val :: pyfloat
  max_loc :: "int \<times> int"
  ref_shape :: "int \<times> int"

text \<open>
  The Appium server, the device, the file system and the libraries are outside the
  program. Each field answers one kind of call: \<open>Some e\<close> (or \<open>Inl e\<close>) when the call
  raises \<open>e\<close>. The answers of the server and of the device may depend on the calls made
  before. \<open>image_to_data\<close> stands for reading the screenshot back and running the OCR on
  it; \<open>match_template\<close> for reading the reference image and the screenshot, converting
  both to grey and matching them; \<open>json_load\<close> for opening a file and decoding it;
  \<open>int_of_str\<close> for \<open>int\<close> applied to a string; \<open>read_config\<close> for the defaults and the
  sections that \<open>ConfigParser.read\<close> finds in \<open>configurations.ini\<close>.
\<close>

record env =
  remote_raises :: "call list \<Rightarrow> caps \<Rightarrow> error option"
  quit_raises :: "call list \<Rightarrow> nat \<Rightarrow> error option"
  save_screenshot_raises :: "call list \<Rightarrow> nat \<Rightarrow> error option"
  execute_script_result :: "call list \<Rightarrow> nat \<Rightarrow> script \<Rightarrow> error + pyval"
  image_to_data :: "call list \<Rightarrow> error + ocr_data"
  match_template :: "call list \<Rightarrow> pystr \<Rightarrow> error + template_match"
  execdir :: pystr
  path_join :: "pystr list \<Rightarrow> pystr"
  isfile :: "pystr \<Rightarrow> bool"
  json_load :: "pystr \<Rightarrow> error + pyval"
  int_of_str :: "pystr \<Rightarrow> error + int"
  read_config :: "error + caps \<times> (pystr \<times> caps) list"
  find_spec :: "pystr \<Rightarrow> bool"
  which :: "pystr \<Rightarrow> pystr option"
  getenv :: "pystr \<Rightarrow> pystr option"

section \<open>Session registry\<close>

text \<open>\<open>section in self.config\<close>: the default section or a section that was read.\<close>

definition config_contains :: "state \<Rightarrow> pystr \<Rightarrow> bool" where
  "config_contains s section =
     (section = str ''DEFAULT'' \<or> section \<in> fst ` set (config_sections s))"

definition config_getitem :: "state \<Rightarrow> pystr \<Rightarrow> error + caps" where
  "config_getitem s section =
     (if section = str ''DEFAULT'' then Inr (config_defaults s)
      else case map_of (config_sections s) section of
             None \<Rightarrow> Inl (KeyError section)
           | Some c \<Rightarrow> Inr c)"

definition get_device_id :: "state \<Rightarrow> pystr \<Rightarrow> error + caps" where
  "get_device_id s dut_name =
     (let section = str ''DUT.'' @ dut_name in
      if \<not> config_contains s section
      then Inl (Exception (str ''DUT section '' @ [39] @ section @ [39] @ str '' not found''))
      else config_getitem s section)"

definition start_appium_session :: "env \<Rightarrow> pystr \<Rightarrow> state \<Rightarrow> (error + nat) \<times> state" where
  "start_appium_session E dut_name s =
     (case map_of (drivers s) dut_name of
        Some driver \<Rightarrow> (Inr driver, s)
      | None \<Rightarrow>
          (case get_device_id s dut_name of
             Inl e \<Rightarrow> (Inl e, s)
           | Inr caps \<Rightarrow>
               (let s1 = s\<lparr>calls := calls s @ [Remote caps]\<rparr> in
                case remote_raises E (calls s) caps of
                  Some e \<Rightarrow> (Inl e, s1)
                | None \<Rightarrow>
                    (let driver = next_driver s1 in
                     (Inr driver,
                      s1\<lparr>drivers := AList.update dut_name driver (drivers s1),
                         next_driver := Suc driver\<rparr>)))))"

text \<open>The loop of \<open>stop_appium_session\<close> over \<open>self.drivers.values()\<close>.\<close>

fun quit_each :: "env \<Rightarrow> nat list \<Rightarrow> call list \<Rightarrow> error option \<times> call list" where
  "quit_each E [] cs = (None, cs)"
| "quit_each E (driver # ds) cs =
     (case quit_raises E cs driver of
        Some e \<Rightarrow> (Some e, cs @ [Quit driver])
      | None \<Rightarrow> quit_each E ds (cs @ [Quit driver]))"

definition stop_appium_session :: "env \<Rightarrow> state \<Rightarrow> (error + unit) \<times> state" where
  "stop_appium_session E s =
     (case quit_each E (map snd (drivers s)) (calls s) of
        (Some e, cs) \<Rightarrow> (Inl e, s\<lparr>calls := cs\<rparr>)
      | (None, cs) \<Rightarrow> (Inr (), s\<lparr>calls := cs, drivers := []\<rparr>))"

section \<open>Keywords\<close>

text \<open>
  Every keyword starts with \<open>driver = self.start_appium_session(dut_name)\<close> and then
  works with that driver only: \<open>on_session\<close> runs the rest of a keyword, which adds to
  the calls made.
\<close>

definition on_session ::
  "env \<Rightarrow> pystr \<Rightarrow> state \<Rightarrow> (nat \<Rightarrow> call list \<Rightarrow> (error + 'a) \<times> call list)
   \<Rightarrow> (error + 'a) \<times> state" where
  "on_session E dut_name s rest =
     (case start_appium_session E dut_name s of
        (Inl e, s1) \<Rightarrow> (Inl e, s1)
      | (Inr driver, s1) \<Rightarrow>
          (case rest driver (calls s1) of (r, cs) \<Rightarrow> (r, s1\<lparr>calls := cs\<rparr>)))"

definition save_screenshot :: "env \<Rightarrow> nat \<Rightarrow> call list \<Rightarrow> (error + unit) \<times> call list" where
  "save_screenshot E driver cs =
     ((case save_screenshot_raises E cs driver of Some e \<Rightarrow> Inl e | None \<Rightarrow> Inr ()),
      cs @ [Save_screenshot driver])"

definition execute_script ::
  "env \<Rightarrow> nat \<Rightarrow> script \<Rightarrow> call list \<Rightarrow> (error + pyval) \<times> call list" where
  "execute_script E driver sc cs =
     (execute_script_result E cs driver sc, cs @ [Execute_script driver sc])"

subsection \<open>Tap by coordinates\<close>

text \<open>\<open>int(v)\<close> for a decoded value.\<close>

fun py_int :: "env \<Rightarrow> pyval \<Rightarrow> error + int" where
  "py_int E (PInt i) = Inr i"
| "py_int E (PBool b) = Inr (if b then 1 else 0)"
| "py_int E (PFloat f) = int_of_float f"
| "py_int E (PStr t) = int_of_str E t"
| "py_int E v = Inl TypeError"

text \<open>\<open>int(data[key_name][c])\<close> for the coordinate \<open>c\<close>.\<close>

definition coordinate :: "env \<Rightarrow> pyval \<Rightarrow> pystr \<Rightarrow> pystr \<Rightarrow> error + int" where
  "coordinate E data key_name c =
     bind (py_getitem data key_name) (\<lambda>entry. bind (py_getitem entry c) (py_int E))"

definition tap_by_coordinates ::
  "env \<Rightarrow> pystr \<Rightarrow> pystr \<Rightarrow> pystr \<Rightarrow> state \<Rightarrow> (error + pystr) \<times> state" where
  "tap_by_coordinates E json_name key_name dut_name s =
     on_session E dut_name s (\<lambda>driver cs.
       let json_file = path_join E [execdir E, str ''Resources'', str ''Coordinates'', json_name] in
       if \<not> isfile E json_file
       then (Inl (AssertionError (str ''JSON file not found: '' @ json_file)), cs)
       else case json_load E json_file of
         Inl e \<Rightarrow> (Inl e, cs)
       | Inr data \<Rightarrow>
          (case py_contains data key_name of
             Inl e \<Rightarrow> (Inl e, cs)
           | Inr False \<Rightarrow>
               (Inl (AssertionError (str ''Key '' @ [39] @ key_name @ [39] @ str '' not found'')), cs)
           | Inr True \<Rightarrow>
              (case coordinate E data key_name (str ''x'') of
                 Inl e \<Rightarrow> (Inl e, cs)
               | Inr x \<Rightarrow>
                  (case coordinate E data key_name (str ''y'') of
                     Inl e \<Rightarrow> (Inl e, cs)
                   | Inr y \<Rightarrow>
                      (case execute_script E driver (ClickGesture x y) cs of
                         (Inl e, cs1) \<Rightarrow> (Inl e, cs1)
                       | (Inr r, cs1) \<Rightarrow>
                           (Inr (str ''Tapped at ('' @ str_int x @ [44] @ str_int y
                                 @ str '') on '' @ dut_name), cs1))))))"

subsection \<open>Tap by text\<close>

text \<open>
  The loop over \<open>enumerate(ocr_data["text"])\<close> stops at the first index whose stripped
  word equals the expected text.
\<close>

fun first_match :: "pystr \<Rightarrow> pystr list \<Rightarrow> nat \<Rightarrow> nat option" where
  "first_match expected_text [] i = None"
| "first_match expected_text (t # ts) i =
     (if strip t = expected_text then Some i else first_match expected_text ts (Suc i))"

text \<open>
  \<open>int(x + w / 2)\<close> for two integers: the quotient and the sum are floats. Both are
  computed here on the exact values, which is what the doubles hold as long as the
  integers stay below \<open>2 ^ 51\<close> in absolute value.
\<close>

definition half_way :: "int \<Rightarrow> int \<Rightarrow> error + int" where
  "half_way x w = int_of_float (Fin (of_int x + of_int w / 2))"

definition box_centre :: "ocr_data \<Rightarrow> nat \<Rightarrow> error + int \<times> int" where
  "box_centre ocr i =
     bind (list_getitem (ocr_left ocr) i) (\<lambda>x.
     bind (list_getitem (ocr_top ocr) i) (\<lambda>y.
     bind (list_getitem (ocr_width ocr) i) (\<lambda>w.
     bind (list_getitem (ocr_height ocr) i) (\<lambda>h.
     bind (half_way x w) (\<lambda>cx.
     bind (half_way y h) (\<lambda>cy. Inr (cx, cy)))))))"

definition tap_by_text :: "env \<Rightarrow> pystr \<Rightarrow> pystr \<Rightarrow> state \<Rightarrow> (error + bool) \<times> state" where
  "tap_by_text E expected_text dut_name s =
     on_session E dut_name s (\<lambda>driver cs.
       case save_screenshot E driver cs of
         (Inl e, cs1) \<Rightarrow> (Inl e, cs1)
       | (Inr u, cs1) \<Rightarrow>
          (case image_to_data E cs1 of
             Inl e \<Rightarrow> (Inl e, cs1)
           | Inr ocr \<Rightarrow>
              (case first_match expected_text (ocr_text ocr) 0 of
                 None \<Rightarrow>
                   (Inl (AssertionError
                      (str ''Text '' @ [39] @ expected_text @ [39] @ str '' not found via OCR'')), cs1)
               | Some i \<Rightarrow>
                  (case box_centre ocr i of
                     Inl e \<Rightarrow> (Inl e, cs1)
                   | Inr (x, y) \<Rightarrow>
                      (case execute_script E driver (ClickGesture x y) cs1 of
                         (Inl e, cs2) \<Rightarrow> (Inl e, cs2)
                       | (Inr r, cs2) \<Rightarrow> (Inr True, cs2))))))"

subsection \<open>Image verification and click\<close>

definition verify_image_element ::
  "env \<Rightarrow> pystr \<Rightarrow> pystr \<Rightarrow> pyfloat \<Rightarrow> state \<Rightarrow> (error + bool) \<times> state" where
  "verify_image_element E image_name dut_name threshold s =
     on_session E dut_name s (\<lambda>driver cs.
       case save_screenshot E driver cs of
         (Inl e, cs1) \<Rightarrow> (Inl e, cs1)
       | (Inr u, cs1) \<Rightarrow>
          (case match_template E cs1 image_name of
             Inl e \<Rightarrow> (Inl e, cs1)
           | Inr m \<Rightarrow>
               if float_ge (max_val m) threshold then (Inr True, cs1)
               else (Inl (AssertionError
                       (str ''Image match failed: score='' @ format_3f (max_val m))), cs1)))"

definition click_by_image ::
  "env \<Rightarrow> pystr \<Rightarrow> pystr \<Rightarrow> pyfloat \<Rightarrow> state \<Rightarrow> (error + pystr) \<times> state" where
  "click_by_image E image_name dut_name threshold s =
     on_session E dut_name s (\<lambda>driver cs.
       case save_screenshot E driver cs of
         (Inl e, cs1) \<Rightarrow> (Inl e, cs1)
       | (Inr u, cs1) \<Rightarrow>
          (case match_template E cs1 image_name of
             Inl e \<Rightarrow> (Inl e, cs1)
           | Inr m \<Rightarrow>
               if float_lt (max_val m) threshold
               then (Inl (AssertionError (str ''Image not found'')), cs1)
               else
                 (case ref_shape m of (h, w) \<Rightarrow>
                    let x = fst (max_loc m) + w div 2;
                        y = snd (max_loc m) + h div 2 in
                    case execute_script E driver (ClickGesture x y) cs1 of
                      (Inl e, cs2) \<Rightarrow> (Inl e, cs2)
                    | (Inr r, cs2) \<Rightarrow>
                        (Inr (str ''Clicked image at ('' @ str_int x @ [44] @ str_int y @ [41]),
                         cs2))))"

subsection \<open>Shell command\<close>

definition run_command ::
  "env \<Rightarrow> pystr \<Rightarrow> pystr \<Rightarrow> int \<Rightarrow> state \<Rightarrow> (error + pystr) \<times> state" where
  "run_command E command dut_name timeout_ms s =
     on_session E dut_name s (\<lambda>driver cs.
       case split command of
         [] \<Rightarrow> (Inl IndexError, cs)
       | c # args \<Rightarrow>
          (case execute_script E driver (Shell c args timeout_ms) cs of
             (Inl e, cs1) \<Rightarrow> (Inl e, cs1)
           | (Inr (PDict d), cs1) \<Rightarrow>
               (py_strip (case map_of d (str ''stdout'') of None \<Rightarrow> PStr [] | Some v \<Rightarrow> v), cs1)
           | (Inr result, cs1) \<Rightarrow> (py_strip result, cs1)))"

section \<open>Construction and the dependency check\<close>

datatype level = INFO | WARN

type_synonym log = "(level \<times> pystr) list"

definition required_packages :: "(pystr \<times> pystr) list" where
  "required_packages =
     [(str ''robotframework'', str ''robot''),
      (str ''appium-python-client'', str ''appium''),
      (str ''selenium'', str ''selenium''),
      (str ''opencv-python'', str ''cv2''),
      (str ''pytesseract'', str ''pytesseract'')]"

text \<open>The loop over \<open>required_packages.items()\<close>: the first missing import raises.\<close>

fun check_packages :: "env \<Rightarrow> (pystr \<times> pystr) list \<Rightarrow> error option" where
  "check_packages E [] = None"
| "check_packages E ((pkg_name, import_name) # rest) =
     (if \<not> find_spec E import_name
      then Some (RuntimeError
             ([10060] @ str '' Required dependency '' @ [39] @ pkg_name @ [39]
              @ str '' is not installed.'' @ [10]
              @ str ''Install it using: pip install '' @ pkg_name))
      else check_packages E rest)"

text \<open>
  The function \<open>_check_runtime_dependencies(self)\<close>, which the source defines at the
  top level of the module, after the class. It returns the lines it logs; the path it
  stores into \<open>pytesseract\<close> is not part of the model.
\<close>

definition check_runtime_dependencies :: "env \<Rightarrow> (error + unit) \<times> log" where
  "check_runtime_dependencies E =
     (case check_packages E required_packages of
        Some e \<Rightarrow> (Inl e, [])
      | None \<Rightarrow>
         (let l1 = [(INFO, [9989] @ str '' All required Python dependencies are installed'')];
              l2 = (case which E (str ''adb'') of
                      None \<Rightarrow> [(WARN, [9888, 65039] @ str '' adb not found in PATH.'' @ [10]
                                  @ str ''Keywords using shell commands and screen recording may fail.'')]
                    | Some p \<Rightarrow> [(INFO, [9989] @ str '' adb detected'')]);
              tesseract_path = (case getenv E (str ''TESSERACT_CMD'') of
                                  None \<Rightarrow> which E (str ''tesseract'')
                                | Some v \<Rightarrow> if v = [] then which E (str ''tesseract'') else Some v);
              l3 = (case tesseract_path of
                      None \<Rightarrow> [(WARN, [9888, 65039] @ str '' Tesseract OCR not found.'' @ [10]
                                  @ str ''OCR-based keywords (Tap By Text) will NOT work.'' @ [10]
                                  @ str ''Install Tesseract and set TESSERACT_CMD environment variable.'')]
                    | Some p \<Rightarrow>
                        if p = []
                        then [(WARN, [9888, 65039] @ str '' Tesseract OCR not found.'' @ [10]
                                  @ str ''OCR-based keywords (Tap By Text) will NOT work.'' @ [10]
                                  @ str ''Install Tesseract and set TESSERACT_CMD environment variable.'')]
                        else [(INFO, [9989] @ str '' Tesseract OCR detected at: '' @ p)])
          in (Inr (), l1 @ l2 @ l3)))"

text \<open>
  The names that an instance of \<open>AppiumKeywords\<close> resolves: the attributes set by
  \<open>__init__\<close> before the check and the functions defined in the body of the class.
\<close>

definition instance_attributes :: "pystr list" where
  "instance_attributes = [str ''drivers'', str ''config'']"

definition class_attributes :: "pystr list" where
  "class_attributes =
     [str ''__init__'', str ''get_device_id'', str ''start_appium_session'',
      str ''stop_appium_session'', str ''verify_text_appium_full'', str ''tap_by_coordinates'',
      str ''tap_by_text'', str ''verify_image_element'', str ''click_by_image'',
      str ''run_command'', str ''press_key'', str ''swipe_left_right'', str ''scroll_top_bottom'',
      str ''start_screen_recording'', str ''stop_screen_recording'', str ''Test_Video'']"

definition has_attribute :: "pystr \<Rightarrow> bool" where
  "has_attribute name = (name \<in> set (instance_attributes @ class_attributes))"

text \<open>\<open>str(e)\<close> for the exceptions that the constructor can catch.\<close>

fun message :: "error \<Rightarrow> pystr" where
  "message (Exception m) = m"
| "message (AssertionError m) = m"
| "message (RuntimeError m) = m"
| "message (AttributeError m) = m"
| "message (LibraryError m) = m"
| "message e = []"

text \<open>
  \<open>self._check_runtime_dependencies()\<close> inside \<open>try\<close>: the attribute is looked up on the
  instance first, and the function is called only if the lookup finds it.
\<close>

definition call_check_runtime_dependencies :: "env \<Rightarrow> (error + unit) \<times> log" where
  "call_check_runtime_dependencies E =
     (if has_attribute (str ''_check_runtime_dependencies'')
      then check_runtime_dependencies E
      else (Inl (AttributeError
              ([39] @ str ''AppiumKeywords'' @ [39] @ str '' object has no attribute ''
               @ [39] @ str ''_check_runtime_dependencies'' @ [39])), []))"

text \<open>
  \<open>__init__\<close>: the result is the new object, or the error of reading the configuration,
  and the lines logged. The path that \<open>TESSERACT_CMD\<close> may store into \<open>pytesseract\<close> is
  not part of the model.
\<close>

definition init :: "env \<Rightarrow> (error + state) \<times> log" where
  "init E =
     (case read_config E of
        Inl e \<Rightarrow> (Inl e, [])
      | Inr (defaults, sections) \<Rightarrow>
         (let self = \<lparr>drivers = [], config_defaults = defaults, config_sections = sections,
                      calls = [], next_driver = 0\<rparr> in
          case call_check_runtime_dependencies E of
            (Inl e, l) \<Rightarrow>
              (Inr self,
               l @ [(WARN, [9888, 65039] @ str '' Dependency check skipped during initialization:''
                         @ [10] @ message e)])
          | (Inr u, l) \<Rightarrow> (Inr self, l)))"

section \<open>Runs of keywords\<close>

datatype keyword_call =
    Start_appium_session pystr
  | Stop_appium_session
  | Tap_by_coordinates pystr pystr pystr
  | Tap_by_text pystr pystr
  | Verify_image_element pystr pystr pyfloat
  | Click_by_image pystr pystr pyfloat
  | Run_command pystr pystr int

text \<open>
  The object after a keyword has run, whether it returned or raised, and after a run of
  keywords; each keyword of a run meets the surroundings it is paired with.
\<close>

fun after_keyword :: "env \<Rightarrow> keyword_call \<Rightarrow> state \<Rightarrow> state" where
  "after_keyword E (Start_appium_session n) s = snd (start_appium_session E n s)"
| "after_keyword E Stop_appium_session s = snd (stop_appium_session E s)"
| "after_keyword E (Tap_by_coordinates j k n) s = snd (tap_by_coordinates E j k n s)"
| "after_keyword E (Tap_by_text t n) s = snd (tap_by_text E t n s)"
| "after_keyword E (Verify_image_element i n th) s = snd (verify_image_element E i n th s)"
| "after_keyword E (Click_by_image i n th) s = snd (click_by_image E i n th s)"
| "after_keyword E (Run_command c n t) s = snd (run_command E c n t s)"

fun after_keywords :: "(env \<times> keyword_call) list \<Rightarrow> state \<Rightarrow> state" where
  "after_keywords [] s = s"
| "after_keywords ((E, k) # ks) s = after_keywords ks (after_keyword E k s)"

section \<open>A test bench\<close>

text \<open>
  Concrete surroundings on which the keywords are run: a configuration with the
  sections \<open>DUT.Phone\<close> and \<open>DUT.Main\<close>, a server that accepts every call, a screen on
  which the OCR reads the word Login twice, a template match of score 0.85 and the
  coordinate file of the specification. \<open>posix_join\<close> is \<open>os.path.join\<close> on POSIX.
\<close>

fun posix_join :: "pystr list \<Rightarrow> pystr" where
  "posix_join [] = []"
| "posix_join [p] = p"
| "posix_join (p # q # r) =
     posix_join ((if take 1 q = [47] then q
                  else if p = [] \<or> last p = 47 then p @ q
                  else p @ [47] @ q) # r)"

definition bench_sections :: "(pystr \<times> caps) list" where
  "bench_sections =
     [(str ''DUT.Phone'', [(str ''device_id'', str ''emulator-5554'')]),
      (str ''DUT.Main'', [(str ''device_id'', str ''emulator-5556'')])]"

definition bench_ocr :: ocr_data where
  "bench_ocr =
     \<lparr>ocr_text = [[], str ''Logins'', str '' Login '', str ''Login''],
      ocr_left = [0, 10, 40, 300],
      ocr_top = [0, 20, 100, 100],
      ocr_width = [1080, 90, 121, 120],
      ocr_height = [1920, 30, 51, 50]\<rparr>"

definition bench_match :: template_match where
  "bench_match = \<lparr>max_val = Fin (85 / 100), max_loc = (200, 400), ref_shape = (51, 101)\<rparr>"

definition bench_coordinates :: pyval where
  "bench_coordinates =
     PDict [(str ''login_button'', PDict [(str ''x'', PInt 100), (str ''y'', PInt 200)])]"

definition bench :: env where
  "bench =
     \<lparr>remote_raises = (\<lambda>cs c. None),
      quit_raises = (\<lambda>cs d. None),
      save_screenshot_raises = (\<lambda>cs d. None),
      execute_script_result =
        (\<lambda>cs d sc. case sc of
           ClickGesture x y \<Rightarrow> Inr PNone
         | Shell c args t \<Rightarrow>
             Inr (PDict [(str ''stdout'', PStr (str '' emulator-5554'' @ [10])),
                         (str ''stderr'', PStr [])])),
      image_to_data = (\<lambda>cs. Inr bench_ocr),
      match_template = (\<lambda>cs image. Inr bench_match),
      execdir = str ''/proj'',
      path_join = posix_join,
      isfile = (\<lambda>p. p = str ''/proj/Resources/Coordinates/home.json''),
      json_load = (\<lambda>p. Inr bench_coordinates),
      int_of_str = (\<lambda>t. Inl ValueError),
      read_config = Inr ([], bench_sections),
      find_spec = (\<lambda>n. True),
      which = (\<lambda>n. Some (str ''/usr/bin/'' @ n)),
      getenv = (\<lambda>n. None)\<rparr>"

definition bench_state :: state where
  "bench_state =
     \<lparr>drivers = [], config_defaults = [], config_sections = bench_sections,
      calls = [], next_driver = 0\<rparr>"

text \<open>The same object once the sessions of Phone and Main are open.\<close>

definition bench_state_open :: state where
  "bench_state_open =
     \<lparr>drivers = [(str ''Phone'', 0), (str ''Main'', 1)],
      config_defaults = [], config_sections = bench_sections,
      calls = [Remote [(str ''device_id'', str ''emulator-5554'')],
               Remote [(str ''device_id'', str ''emulator-5556'')]],
      next_driver = 2\<rparr>"

text \<open>
  A server that refuses the first connection and accepts the later ones, and a server
  on which the session of the first driver cannot be closed.
\<close>

definition bench_refusing :: env where
  "bench_refusing =
     bench\<lparr>remote_raises :=
       (\<lambda>cs c. if cs = [] then Some (LibraryError (str ''connection refused'')) else None)\<rparr>"

definition bench_quit_fails :: env where
  "bench_quit_fails =
     bench\<lparr>quit_raises :=
       (\<lambda>cs d. if d = 0 then Some (LibraryError (str ''session gone'')) else None)\<rparr>"

section \<open>Properties of the session registry\<close>

lemma dut_section_not_default: "str ''DUT.'' @ n \<noteq> str ''DEFAULT''"
  by (simp add: str_def)

lemma get_device_id_calls [simp]:
  "get_device_id (s\<lparr>calls := cs\<rparr>) n = get_device_id s n"
  by (simp add: get_device_id_def config_contains_def config_getitem_def Let_def)

lemma get_device_id_missing:
  "str ''DUT.'' @ n \<notin> fst ` set (config_sections s)
   \<Longrightarrow> get_device_id s n
       = Inl (Exception (str ''DUT section '' @ [39] @ str ''DUT.'' @ n @ [39] @ str '' not found''))"
  by (simp add: get_device_id_def config_contains_def Let_def dut_section_not_default)

lemma get_device_id_found:
  "get_device_id s n = Inr c \<Longrightarrow> str ''DUT.'' @ n \<in> fst ` set (config_sections s)"
  by (simp add: get_device_id_def config_contains_def Let_def dut_section_not_default
      split: if_splits)

lemma start_cached:
  "map_of (drivers s) n = Some d \<Longrightarrow> start_appium_session E n s = (Inr d, s)"
  by (simp add: start_appium_session_def)

lemma start_success_cached:
  "start_appium_session E n s = (Inr d, s') \<Longrightarrow> map_of (drivers s') n = Some d"
  by (auto simp: start_appium_session_def Let_def update_conv' split: option.splits sum.splits)

lemma start_keeps_entry:
  "map_of (drivers s) n = Some d
   \<Longrightarrow> map_of (drivers (snd (start_appium_session E m s))) n = Some d"
  by (auto simp: start_appium_session_def Let_def update_conv' split: option.splits sum.splits)

lemma start_keeps_distinct:
  "distinct (map fst (drivers s))
   \<Longrightarrow> distinct (map fst (drivers (snd (start_appium_session E m s))))"
  by (auto simp: start_appium_session_def Let_def distinct_update split: option.splits sum.splits)

lemma start_config [simp]:
  "config_sections (snd (start_appium_session E m s)) = config_sections s"
  by (auto simp: start_appium_session_def Let_def split: option.splits sum.splits)

lemma start_names:
  "fst ` set (drivers (snd (start_appium_session E m s)))
     \<subseteq> fst ` set (drivers s) \<union> {k. str ''DUT.'' @ k \<in> fst ` set (config_sections s)}"
proof (cases "map_of (drivers s) m")
  case (Some d)
  then show ?thesis by (simp add: start_appium_session_def)
next
  case None
  show ?thesis
  proof (cases "get_device_id s m")
    case (Inl e)
    with None show ?thesis by (simp add: start_appium_session_def)
  next
    case (Inr c)
    then have "str ''DUT.'' @ m \<in> fst ` set (config_sections s)"
      by (rule get_device_id_found)
    with None Inr show ?thesis
      by (auto simp: start_appium_session_def Let_def dom_update split: option.splits)
  qed
qed

lemma on_session_state:
  "\<exists>cs. snd (on_session E n s rest) = (snd (start_appium_session E n s))\<lparr>calls := cs\<rparr>"
proof (cases "start_appium_session E n s")
  case (Pair r s1)
  show ?thesis
  proof (cases r)
    case (Inl e)
    with Pair have "snd (on_session E n s rest) = s1\<lparr>calls := calls s1\<rparr>"
      by (simp add: on_session_def)
    with Pair show ?thesis by (metis snd_conv)
  next
    case (Inr d)
    with Pair have "snd (on_session E n s rest) = s1\<lparr>calls := snd (rest d (calls s1))\<rparr>"
      by (simp add: on_session_def split: prod.splits)
    with Pair show ?thesis by (metis snd_conv)
  qed
qed

lemma on_session_drivers [simp]:
  "drivers (snd (on_session E n s rest)) = drivers (snd (start_appium_session E n s))"
proof -
  obtain cs where "snd (on_session E n s rest) = (snd (start_appium_session E n s))\<lparr>calls := cs\<rparr>"
    using on_session_state by blast
  then show ?thesis by simp
qed

lemma on_session_config [simp]:
  "config_sections (snd (on_session E n s rest)) = config_sections s"
proof -
  obtain cs where "snd (on_session E n s rest) = (snd (start_appium_session E n s))\<lparr>calls := cs\<rparr>"
    using on_session_state by blast
  then show ?thesis by simp
qed

lemma stop_config [simp]:
  "config_sections (snd (stop_appium_session E s)) = config_sections s"
  by (auto simp: stop_appium_session_def split: prod.splits option.splits)

lemma stop_drivers:
  "drivers (snd (stop_appium_session E s)) = drivers s
   \<or> drivers (snd (stop_appium_session E s)) = []"
  by (auto simp: stop_appium_session_def split: prod.splits option.splits)

lemma after_keyword_config [simp]:
  "config_sections (after_keyword E k s) = config_sections s"
  by (cases k)
    (simp_all add: tap_by_coordinates_def tap_by_text_def verify_image_element_def
      click_by_image_def run_command_def)

lemma after_keywords_config [simp]:
  "config_sections (after_keywords ks s) = config_sections s"
  by (induction ks s rule: after_keywords.induct) simp_all

lemma after_keyword_drivers:
  "drivers (after_keyword E k s) = []
   \<or> (\<exists>m. drivers (after_keyword E k s) = drivers (snd (start_appium_session E m s)))
   \<or> drivers (after_keyword E k s) = drivers s"
proof (cases k)
  case Stop_appium_session
  then show ?thesis using stop_drivers [of E s] by auto
qed (auto simp: tap_by_coordinates_def tap_by_text_def verify_image_element_def
      click_by_image_def run_command_def)

lemma after_keyword_keeps_entry:
  "k \<noteq> Stop_appium_session \<Longrightarrow> map_of (drivers s) n = Some d
   \<Longrightarrow> map_of (drivers (after_keyword E k s)) n = Some d"
  by (cases k)
    (simp_all add: tap_by_coordinates_def tap_by_text_def verify_image_element_def
      click_by_image_def run_command_def start_keeps_entry)

lemma after_keyword_keeps_distinct:
  assumes "distinct (map fst (drivers s))"
  shows "distinct (map fst (drivers (after_keyword E k s)))"
  using after_keyword_drivers [of E k s]
proof (elim disjE exE)
  assume "drivers (after_keyword E k s) = []"
  then show ?thesis by simp
next
  fix m
  assume "drivers (after_keyword E k s) = drivers (snd (start_appium_session E m s))"
  then show ?thesis using assms by (simp add: start_keeps_distinct)
next
  assume "drivers (after_keyword E k s) = drivers s"
  then show ?thesis using assms by simp
qed

lemma after_keywords_keep_entry:
  "Stop_appium_session \<notin> snd ` set ks \<Longrightarrow> map_of (drivers s) n = Some d
   \<Longrightarrow> map_of (drivers (after_keywords ks s)) n = Some d"
proof (induction ks s rule: after_keywords.induct)
  case (1 s)
  then show ?case by simp
next
  case (2 E k ks s)
  have "k \<noteq> Stop_appium_session"
    using "2.prems"(1) by auto
  then have "map_of (drivers (after_keyword E k s)) n = Some d"
    using "2.prems"(2) by (rule after_keyword_keeps_entry)
  moreover have "Stop_appium_session \<notin> snd ` set ks"
    using "2.prems"(1) by auto
  ultimately show ?case
    using "2.IH" by simp
qed

lemma after_keywords_keep_distinct:
  "distinct (map fst (drivers s)) \<Longrightarrow> distinct (map fst (drivers (after_keywords ks s)))"
  by (induction ks s rule: after_keywords.induct) (simp_all add: after_keyword_keeps_distinct)

lemma after_keyword_names:
  assumes "fst ` set (drivers s) \<subseteq> {m. str ''DUT.'' @ m \<in> fst ` set (config_sections s)}"
  shows "fst ` set (drivers (after_keyword E k s))
           \<subseteq> {m. str ''DUT.'' @ m \<in> fst ` set (config_sections s)}"
  using after_keyword_drivers [of E k s]
proof (elim disjE exE)
  assume "drivers (after_keyword E k s) = []"
  then show ?thesis by simp
next
  fix m
  assume "drivers (after_keyword E k s) = drivers (snd (start_appium_session E m s))"
  then have "fst ` set (drivers (after_keyword E k s))
      \<subseteq> fst ` set (drivers s) \<union> {k. str ''DUT.'' @ k \<in> fst ` set (config_sections s)}"
    using start_names [of E m s] by simp
  then show ?thesis using assms by blast
next
  assume "drivers (after_keyword E k s) = drivers s"
  then show ?thesis using assms by simp
qed

lemma after_keywords_names:
  "fst ` set (drivers s) \<subseteq> {m. str ''DUT.'' @ m \<in> fst ` set (config_sections s)}
   \<Longrightarrow> fst ` set (drivers (after_keywords ks s))
       \<subseteq> {m. str ''DUT.'' @ m \<in> fst ` set (config_sections s)}"
proof (induction ks s rule: after_keywords.induct)
  case (1 s)
  then show ?case by simp
next
  case (2 E k ks s)
  have "fst ` set (drivers (after_keyword E k s))
          \<subseteq> {m. str ''DUT.'' @ m \<in> fst ` set (config_sections (after_keyword E k s))}"
    using after_keyword_names [OF "2.prems"] by simp
  from "2.IH" [OF this] show ?case by simp
qed

lemma init_state:
  "fst (init E) = Inr s \<Longrightarrow> drivers s = [] \<and> calls s = []"
  by (auto simp: init_def Let_def split: sum.splits prod.splits)

lemma distinct_one_entry:
  "distinct (map fst al) \<Longrightarrow> map_of al k = Some v \<Longrightarrow> filter (\<lambda>p. fst p = k) al = [(k, v)]"
proof (induction al)
  case Nil
  then show ?case by simp
next
  case (Cons p al)
  show ?case
  proof (cases "fst p = k")
    case True
    with Cons.prems have "p = (k, v)" by (cases p) simp
    moreover have "k \<notin> fst ` set al"
      using Cons.prems(1) True by simp
    then have "filter (\<lambda>q. fst q = k) al = []"
      by (auto simp: filter_empty_conv)
    ultimately show ?thesis by simp
  next
    case False
    with Cons show ?thesis by simp
  qed
qed

text \<open>
  Claim C1. Once \<open>start_appium_session\<close> has created a session for a name, every later
  call for that name returns the same driver and changes nothing, so that no second
  connection is made, whatever keywords other than the teardown ran in between; and the
  dictionary holds exactly one entry for the name.
\<close>

theorem start_appium_session_reuses_session:
  assumes "distinct (map fst (drivers s))"
    and "start_appium_session E n s = (Inr d, s1)"
    and "Stop_appium_session \<notin> snd ` set ks"
  shows "start_appium_session E' n (after_keywords ks s1) = (Inr d, after_keywords ks s1)
         \<and> filter (\<lambda>p. fst p = n) (drivers (after_keywords ks s1)) = [(n, d)]"
proof -
  let ?s2 = "after_keywords ks s1"
  have "map_of (drivers s1) n = Some d"
    using assms(2) by (rule start_success_cached)
  then have look: "map_of (drivers ?s2) n = Some d"
    using assms(3) by (simp add: after_keywords_keep_entry)
  have "s1 = snd (start_appium_session E n s)"
    using assms(2) by simp
  then have "distinct (map fst (drivers s1))"
    using assms(1) by (simp add: start_keeps_distinct)
  then have "distinct (map fst (drivers ?s2))"
    by (rule after_keywords_keep_distinct)
  then have "filter (\<lambda>p. fst p = n) (drivers ?s2) = [(n, d)]"
    using look by (rule distinct_one_entry)
  with look show ?thesis
    by (simp add: start_cached)
qed

lemma start_appium_session_calls:
  "calls (snd (start_appium_session E m s)) \<noteq> calls s \<Longrightarrow> \<exists>c. get_device_id s m = Inr c"
  by (auto simp: start_appium_session_def Let_def split: option.splits sum.splits)

text \<open>
  Claim C4. On an object built by \<open>__init__\<close>, after any run of keywords, requesting a
  session for a name that has no section \<open>DUT.<name>\<close> fails with the error of the
  configuration lookup \<open>get_device_id\<close>, which the specification calls
  \<open>ConfigNotFound\<close>, and leaves the object as it was: no call to the server is made. And
  in any state, \<open>start_appium_session\<close> makes a call only after \<open>get_device_id\<close> has
  returned the section.
\<close>

theorem start_appium_session_without_section:
  assumes "fst (init E0) = Inr s0"
    and "str ''DUT.'' @ n \<notin> fst ` set (config_sections s0)"
  shows "get_device_id (after_keywords ks s0) n
           = Inl (Exception (str ''DUT section '' @ [39] @ str ''DUT.'' @ n @ [39] @ str '' not found''))
         \<and> start_appium_session E n (after_keywords ks s0)
           = (Inl (Exception (str ''DUT section '' @ [39] @ str ''DUT.'' @ n @ [39] @ str '' not found'')),
              after_keywords ks s0)
         \<and> (\<forall>m s. calls (snd (start_appium_session E m s)) \<noteq> calls s \<longrightarrow>
               (\<exists>c. get_device_id s m = Inr c))"
proof -
  let ?s = "after_keywords ks s0"
  have "drivers s0 = []"
    using assms(1) by (simp add: init_state)
  then have "fst ` set (drivers s0) \<subseteq> {m. str ''DUT.'' @ m \<in> fst ` set (config_sections s0)}"
    by simp
  then have "fst ` set (drivers ?s) \<subseteq> {m. str ''DUT.'' @ m \<in> fst ` set (config_sections s0)}"
    by (rule after_keywords_names)
  then have "n \<notin> fst ` set (drivers ?s)"
    using assms(2) by auto
  then have absent: "map_of (drivers ?s) n = None"
    by (simp add: map_of_eq_None_iff)
  have missing: "get_device_id ?s n
      = Inl (Exception (str ''DUT section '' @ [39] @ str ''DUT.'' @ n @ [39] @ str '' not found''))"
    using assms(2) by (simp add: get_device_id_missing)
  have raised: "start_appium_session E n ?s
      = (Inl (Exception (str ''DUT section '' @ [39] @ str ''DUT.'' @ n @ [39] @ str '' not found'')), ?s)"
    using absent missing by (simp add: start_appium_session_def)
  show ?thesis
    using missing raised start_appium_session_calls by blast
qed

lemmas bench_defs =
  bench_def bench_state_def bench_state_open_def bench_sections_def bench_refusing_def
  bench_quit_fails_def

lemmas session_defs =
  start_appium_session_def get_device_id_def config_contains_def config_getitem_def Let_def
  str_def

lemma bench_get_device_id_phone:
  "get_device_id bench_state (str ''Phone'') = Inr [(str ''device_id'', str ''emulator-5554'')]"
  by (simp add: session_defs bench_defs)

lemma bench_start_phone:
  "start_appium_session bench (str ''Phone'') bench_state
     = (Inr 0, bench_state\<lparr>calls := [Remote [(str ''device_id'', str ''emulator-5554'')]],
                            drivers := [(str ''Phone'', 0)], next_driver := 1\<rparr>)"
  by (simp add: session_defs bench_defs)

lemma bench_start_main:
  "start_appium_session bench (str ''Main'') (snd (start_appium_session bench (str ''Phone'') bench_state))
     = (Inr 1, bench_state_open)"
  by (simp add: session_defs bench_defs)

lemma bench_open:
  "after_keywords [(bench, Start_appium_session (str ''Phone'')),
                   (bench, Start_appium_session (str ''Main''))] bench_state = bench_state_open"
  by (simp add: bench_start_main)

lemma bench_init: "fst (init bench) = Inr bench_state"
  by (simp add: init_def bench_def bench_state_def Let_def split: prod.splits sum.splits)

theorem start_appium_session_reuses_session_witness:
  "distinct (map fst (drivers bench_state))
   \<and> fst (start_appium_session bench (str ''Phone'') bench_state) = Inr 0
   \<and> start_appium_session bench (str ''Phone'') bench_state_open = (Inr 0, bench_state_open)"
proof -
  have d: "distinct (map fst (drivers bench_state))"
    by (simp add: bench_state_def)
  have n: "Stop_appium_session \<notin> snd ` set [(bench, Start_appium_session (str ''Main''))]"
    by simp
  have o: "after_keywords [(bench, Start_appium_session (str ''Main''))]
          (snd (start_appium_session bench (str ''Phone'') bench_state)) = bench_state_open"
    by (simp add: bench_start_main)
  have p: "start_appium_session bench (str ''Phone'') bench_state
             = (Inr 0, snd (start_appium_session bench (str ''Phone'') bench_state))"
    by (simp add: bench_start_phone)
  show ?thesis
    using start_appium_session_reuses_session [OF d p n, of bench] d
    by (simp only: o) (simp add: bench_start_phone)
qed

theorem start_appium_session_without_section_witness:
  "fst (init bench) = Inr bench_state
   \<and> str ''DUT.'' @ str ''Cluster'' \<notin> fst ` set (config_sections bench_state)
   \<and> start_appium_session bench (str ''Cluster'') bench_state_open
       = (Inl (Exception (str ''DUT section '' @ [39] @ str ''DUT.'' @ str ''Cluster'' @ [39]
                          @ str '' not found'')), bench_state_open)"
proof -
  have m: "str ''DUT.'' @ str ''Cluster'' \<notin> fst ` set (config_sections bench_state)"
    by (simp add: bench_state_def bench_sections_def str_def)
  have "start_appium_session bench (str ''Cluster'')
          (after_keywords [(bench, Start_appium_session (str ''Phone'')),
                           (bench, Start_appium_session (str ''Main''))] bench_state)
       = (Inl (Exception (str ''DUT section '' @ [39] @ str ''DUT.'' @ str ''Cluster'' @ [39]
                          @ str '' not found'')),
          after_keywords [(bench, Start_appium_session (str ''Phone'')),
                          (bench, Start_appium_session (str ''Main''))] bench_state)"
    using start_appium_session_without_section [OF bench_init m] by blast
  then show ?thesis
    using bench_init m unfolding bench_open by blast
qed

text \<open>
  Claim C10. When the construction of the driver raises, the call fails with that error
  and the dictionary is unchanged, so the name is still absent from it; the next request
  for the name connects again, and it caches the new driver if this connection
  succeeds.
\<close>

theorem start_appium_session_failure_not_cached:
  assumes "map_of (drivers s) n = None"
    and "get_device_id s n = Inr caps"
    and "remote_raises E (calls s) caps = Some e"
  shows "start_appium_session E n s = (Inl e, s\<lparr>calls := calls s @ [Remote caps]\<rparr>)
         \<and> drivers (snd (start_appium_session E n s)) = drivers s
         \<and> map_of (drivers (snd (start_appium_session E n s))) n = None
         \<and> calls (snd (start_appium_session E' n (snd (start_appium_session E n s))))
             = calls s @ [Remote caps, Remote caps]
         \<and> (remote_raises E' (calls s @ [Remote caps]) caps = None \<longrightarrow>
              fst (start_appium_session E' n (snd (start_appium_session E n s)))
                = Inr (next_driver s)
              \<and> map_of (drivers (snd (start_appium_session E' n (snd (start_appium_session E n s))))) n
                = Some (next_driver s))"
proof -
  let ?s1 = "s\<lparr>calls := calls s @ [Remote caps]\<rparr>"
  have first: "start_appium_session E n s = (Inl e, ?s1)"
    using assms by (simp add: start_appium_session_def)
  have dev: "get_device_id ?s1 n = Inr caps"
    using assms(2) by simp
  have second: "calls (snd (start_appium_session E' n ?s1)) = calls s @ [Remote caps, Remote caps]"
    using assms(1) dev by (simp add: start_appium_session_def Let_def split: option.splits)
  have third: "remote_raises E' (calls s @ [Remote caps]) caps = None \<longrightarrow>
      fst (start_appium_session E' n ?s1) = Inr (next_driver s)
      \<and> map_of (drivers (snd (start_appium_session E' n ?s1))) n = Some (next_driver s)"
    using assms(1) dev by (simp add: start_appium_session_def Let_def update_conv')
  show ?thesis
    using first second third assms(1) by simp
qed

theorem start_appium_session_failure_not_cached_witness:
  "map_of (drivers bench_state) (str ''Phone'') = None
   \<and> get_device_id bench_state (str ''Phone'') = Inr [(str ''device_id'', str ''emulator-5554'')]
   \<and> remote_raises bench_refusing (calls bench_state) [(str ''device_id'', str ''emulator-5554'')]
       = Some (LibraryError (str ''connection refused''))
   \<and> fst (start_appium_session bench_refusing (str ''Phone'') bench_state)
       = Inl (LibraryError (str ''connection refused''))
   \<and> drivers (snd (start_appium_session bench_refusing (str ''Phone'') bench_state)) = []
   \<and> fst (start_appium_session bench_refusing (str ''Phone'')
            (snd (start_appium_session bench_refusing (str ''Phone'') bench_state))) = Inr 0"
proof -
  have a: "map_of (drivers bench_state) (str ''Phone'') = None"
    by (simp add: bench_state_def)
  have c: "remote_raises bench_refusing (calls bench_state) [(str ''device_id'', str ''emulator-5554'')]
       = Some (LibraryError (str ''connection refused''))"
    by (simp add: bench_refusing_def bench_state_def)
  have ok: "remote_raises bench_refusing
       (calls bench_state @ [Remote [(str ''device_id'', str ''emulator-5554'')]])
       [(str ''device_id'', str ''emulator-5554'')] = None"
    by (simp add: bench_refusing_def)
  have z: "next_driver bench_state = 0" "drivers bench_state = []"
    by (simp_all add: bench_state_def)
  note t = start_appium_session_failure_not_cached
    [OF a bench_get_device_id_phone c, of bench_refusing]
  have r1: "fst (start_appium_session bench_refusing (str ''Phone'') bench_state)
       = Inl (LibraryError (str ''connection refused''))"
    using t by simp
  have r2: "drivers (snd (start_appium_session bench_refusing (str ''Phone'') bench_state))
       = drivers bench_state"
    using t by blast
  have r3: "fst (start_appium_session bench_refusing (str ''Phone'')
            (snd (start_appium_session bench_refusing (str ''Phone'') bench_state)))
       = Inr (next_driver bench_state)"
    using t ok by blast
  show ?thesis
    using a c bench_get_device_id_phone r1 r2 r3 by (simp only: z)
qed

lemma quit_each_all_ok:
  "(\<forall>k<length ds. quit_raises E (cs @ map Quit (take k ds)) (ds ! k) = None)
   \<Longrightarrow> quit_each E ds cs = (None, cs @ map Quit ds)"
proof (induction ds arbitrary: cs)
  case Nil
  then show ?case by simp
next
  case (Cons d ds)
  have here: "quit_raises E cs d = None"
    using Cons.prems by force
  have rest: "\<forall>k<length ds. quit_raises E ((cs @ [Quit d]) @ map Quit (take k ds)) (ds ! k) = None"
  proof (intro allI impI)
    fix k assume "k < length ds"
    then have "quit_raises E (cs @ map Quit (take (Suc k) (d # ds))) ((d # ds) ! Suc k) = None"
      using Cons.prems by (metis Suc_less_eq length_Cons)
    then show "quit_raises E ((cs @ [Quit d]) @ map Quit (take k ds)) (ds ! k) = None"
      by simp
  qed
  show ?case
    using here Cons.IH [OF rest] by simp
qed

lemma quit_each_first_failure:
  "k < length ds
   \<Longrightarrow> (\<forall>j<k. quit_raises E (cs @ map Quit (take j ds)) (ds ! j) = None)
   \<Longrightarrow> quit_raises E (cs @ map Quit (take k ds)) (ds ! k) = Some e
   \<Longrightarrow> quit_each E ds cs = (Some e, cs @ map Quit (take (Suc k) ds))"
proof (induction ds arbitrary: cs k)
  case Nil
  then show ?case by simp
next
  case (Cons d ds)
  show ?case
  proof (cases k)
    case 0
    with Cons.prems show ?thesis by simp
  next
    case (Suc k')
    have here: "quit_raises E cs d = None"
      using Cons.prems(2) Suc by force
    have len: "k' < length ds"
      using Cons.prems(1) Suc by simp
    have before: "\<forall>j<k'. quit_raises E ((cs @ [Quit d]) @ map Quit (take j ds)) (ds ! j) = None"
    proof (intro allI impI)
      fix j assume "j < k'"
      then have "Suc j < k" using Suc by simp
      then have "quit_raises E (cs @ map Quit (take (Suc j) (d # ds))) ((d # ds) ! Suc j) = None"
        using Cons.prems(2) by blast
      then show "quit_raises E ((cs @ [Quit d]) @ map Quit (take j ds)) (ds ! j) = None"
        by simp
    qed
    have fails: "quit_raises E ((cs @ [Quit d]) @ map Quit (take k' ds)) (ds ! k') = Some e"
      using Cons.prems(3) Suc by simp
    show ?thesis
      using here Suc Cons.IH [OF len before fails] by simp
  qed
qed

text \<open>
  Claim C6. \<open>stop_appium_session\<close> quits the cached drivers in the order of the
  dictionary. If every \<open>quit\<close> returns, all drivers have been told to quit and the
  dictionary is empty afterwards. If the \<open>quit\<close> of the driver at position \<open>k\<close> is the
  first to raise, the keyword raises that error, the drivers after position \<open>k\<close> are
  never told to quit, and the dictionary is left as it was.
\<close>

theorem stop_appium_session_aborts_on_failure:
  "(let ds = map snd (drivers s) in
     ((\<forall>k<length ds. quit_raises E (calls s @ map Quit (take k ds)) (ds ! k) = None) \<longrightarrow>
        stop_appium_session E s
          = (Inr (), s\<lparr>calls := calls s @ map Quit ds, drivers := []\<rparr>))
     \<and> (\<forall>k e. k < length ds
           \<and> (\<forall>j<k. quit_raises E (calls s @ map Quit (take j ds)) (ds ! j) = None)
           \<and> quit_raises E (calls s @ map Quit (take k ds)) (ds ! k) = Some e \<longrightarrow>
        stop_appium_session E s
          = (Inl e, s\<lparr>calls := calls s @ map Quit (take (Suc k) ds)\<rparr>)))"
proof -
  let ?ds = "map snd (drivers s)"
  have ok: "(\<forall>k<length ?ds. quit_raises E (calls s @ map Quit (take k ?ds)) (?ds ! k) = None) \<longrightarrow>
        stop_appium_session E s
          = (Inr (), s\<lparr>calls := calls s @ map Quit ?ds, drivers := []\<rparr>)"
  proof
    assume "\<forall>k<length ?ds. quit_raises E (calls s @ map Quit (take k ?ds)) (?ds ! k) = None"
    then have "quit_each E ?ds (calls s) = (None, calls s @ map Quit ?ds)"
      by (rule quit_each_all_ok)
    then show "stop_appium_session E s
          = (Inr (), s\<lparr>calls := calls s @ map Quit ?ds, drivers := []\<rparr>)"
      by (simp add: stop_appium_session_def)
  qed
  have bad: "\<forall>k e. k < length ?ds
           \<and> (\<forall>j<k. quit_raises E (calls s @ map Quit (take j ?ds)) (?ds ! j) = None)
           \<and> quit_raises E (calls s @ map Quit (take k ?ds)) (?ds ! k) = Some e \<longrightarrow>
        stop_appium_session E s
          = (Inl e, s\<lparr>calls := calls s @ map Quit (take (Suc k) ?ds)\<rparr>)"
  proof (intro allI impI)
    fix k e
    assume h: "k < length ?ds
           \<and> (\<forall>j<k. quit_raises E (calls s @ map Quit (take j ?ds)) (?ds ! j) = None)
           \<and> quit_raises E (calls s @ map Quit (take k ?ds)) (?ds ! k) = Some e"
    then have "quit_each E ?ds (calls s) = (Some e, calls s @ map Quit (take (Suc k) ?ds))"
      using quit_each_first_failure [of k ?ds E "calls s" e] by blast
    then show "stop_appium_session E s
          = (Inl e, s\<lparr>calls := calls s @ map Quit (take (Suc k) ?ds)\<rparr>)"
      by (simp add: stop_appium_session_def)
  qed
  show ?thesis
    unfolding Let_def using ok bad by blast
qed

theorem stop_appium_session_aborts_on_failure_witness:
  "quit_raises bench_quit_fails (calls bench_state_open) 0 = Some (LibraryError (str ''session gone''))
   \<and> stop_appium_session bench_quit_fails bench_state_open
       = (Inl (LibraryError (str ''session gone'')),
          bench_state_open\<lparr>calls := calls bench_state_open @ [Quit 0]\<rparr>)
   \<and> drivers (snd (stop_appium_session bench_quit_fails bench_state_open))
       = [(str ''Phone'', 0), (str ''Main'', 1)]"
proof -
  have q: "quit_raises bench_quit_fails (calls bench_state_open) 0
             = Some (LibraryError (str ''session gone''))"
    by (simp add: bench_quit_fails_def)
  have ds: "map snd (drivers bench_state_open) = [0, 1]"
    by (simp add: bench_state_open_def)
  have "\<forall>k e. k < length [0::nat, 1]
           \<and> (\<forall>j<k. quit_raises bench_quit_fails
                       (calls bench_state_open @ map Quit (take j [0, 1])) ([0, 1] ! j) = None)
           \<and> quit_raises bench_quit_fails
                 (calls bench_state_open @ map Quit (take k [0, 1])) ([0, 1] ! k) = Some e \<longrightarrow>
        stop_appium_session bench_quit_fails bench_state_open
          = (Inl e, bench_state_open\<lparr>calls := calls bench_state_open
                                         @ map Quit (take (Suc k) [0, 1])\<rparr>)"
    using stop_appium_session_aborts_on_failure [of bench_state_open bench_quit_fails]
    by (simp only: Let_def ds) blast
  then have "0 < length [0::nat, 1]
           \<and> (\<forall>j<0. quit_raises bench_quit_fails
                       (calls bench_state_open @ map Quit (take j [0, 1])) ([0, 1] ! j) = None)
           \<and> quit_raises bench_quit_fails
                 (calls bench_state_open @ map Quit (take 0 [0, 1])) ([0, 1] ! 0)
               = Some (LibraryError (str ''session gone'')) \<longrightarrow>
        stop_appium_session bench_quit_fails bench_state_open
          = (Inl (LibraryError (str ''session gone'')),
             bench_state_open\<lparr>calls := calls bench_state_open
                                         @ map Quit (take (Suc 0) [0, 1])\<rparr>)"
    by blast
  then have r: "stop_appium_session bench_quit_fails bench_state_open
       = (Inl (LibraryError (str ''session gone'')),
          bench_state_open\<lparr>calls := calls bench_state_open @ [Quit 0]\<rparr>)"
    using q by simp
  show ?thesis
    using q r by (simp add: bench_state_open_def)
qed


section \<open>Properties of the keywords\<close>

lemma on_session_run:
  "start_appium_session E n s = (Inr d, s1)
   \<Longrightarrow> on_session E n s rest = (fst (rest d (calls s1)), s1\<lparr>calls := snd (rest d (calls s1))\<rparr>)"
  by (simp add: on_session_def split: prod.splits)

lemma bench_open_phone:
  "start_appium_session bench (str ''Phone'') bench_state_open = (Inr 0, bench_state_open)"
  by (simp add: session_defs bench_defs)

subsection \<open>Image verification\<close>



lemma float_ge_not_lt: "float_ge a b \<Longrightarrow> \<not> float_lt a b"
  by (cases a; cases b) simp_all








subsection \<open>Click by image\<close>

text \<open>
  Claim C8. When the best score meets the threshold, \<open>click_by_image\<close> issues, after the
  screenshot, exactly one tap, at the point whose abscissa is the left edge of the best
  match plus half the width of the reference image and whose ordinate is the top edge
  plus half its height, both halves by integer division; it then reports that point.
\<close>

theorem click_by_image_taps_centre:
  assumes "start_appium_session E dut_name s = (Inr driver, s1)"
    and "save_screenshot_raises E (calls s1) driver = None"
    and "match_template E (calls s1 @ [Save_screenshot driver]) image_name = Inr m"
    and "float_ge (max_val m) threshold"
  shows "calls (snd (click_by_image E image_name dut_name threshold s))
           = calls s1 @ [Save_screenshot driver,
                         Execute_script driver
                           (ClickGesture (fst (max_loc m) + snd (ref_shape m) div 2)
                                         (snd (max_loc m) + fst (ref_shape m) div 2))]
     \<and> (\<forall>r. execute_script_result E (calls s1 @ [Save_screenshot driver]) driver
               (ClickGesture (fst (max_loc m) + snd (ref_shape m) div 2)
                             (snd (max_loc m) + fst (ref_shape m) div 2)) = Inr r \<longrightarrow>
           fst (click_by_image E image_name dut_name threshold s)
             = Inr (str ''Clicked image at ('' @ str_int (fst (max_loc m) + snd (ref_shape m) div 2)
                    @ [44] @ str_int (snd (max_loc m) + fst (ref_shape m) div 2) @ [41]))"
proof -
  have nlt: "\<not> float_lt (max_val m) threshold"
    using assms(4) by (rule float_ge_not_lt)
  obtain h w where hw: "ref_shape m = (h, w)"
    by (cases "ref_shape m")
  show ?thesis
    using assms(1-3) nlt hw
    by (auto simp: click_by_image_def on_session_run save_screenshot_def execute_script_def
        Let_def split: sum.splits)
qed

theorem click_by_image_taps_centre_witness:
  "start_appium_session bench (str ''Phone'') bench_state_open = (Inr 0, bench_state_open)
   \<and> float_ge (max_val bench_match) (Fin (8 / 10))
   \<and> max_loc bench_match = (200, 400)
   \<and> ref_shape bench_match = (51, 101)
   \<and> calls (snd (click_by_image bench (str ''logo.png'') (str ''Phone'') (Fin (8 / 10)) bench_state_open))
       = calls bench_state_open @ [Save_screenshot 0, Execute_script 0 (ClickGesture 250 425)]"
proof -
  have sh: "save_screenshot_raises bench (calls bench_state_open) 0 = None"
    by (simp add: bench_def)
  have mt: "match_template bench (calls bench_state_open @ [Save_screenshot 0]) (str ''logo.png'')
       = Inr bench_match"
    by (simp add: bench_def)
  have ge: "float_ge (max_val bench_match) (Fin (8 / 10))"
    by (simp add: bench_match_def)
  have loc: "max_loc bench_match = (200, 400)" "ref_shape bench_match = (51, 101)"
    by (simp_all add: bench_match_def)
  show ?thesis
    using click_by_image_taps_centre [OF bench_open_phone sh mt ge] bench_open_phone ge loc
    by simp
qed


subsection \<open>Tap by text\<close>

lemma first_match_none:
  "(\<forall>t\<in>set ts. strip t \<noteq> e) \<Longrightarrow> first_match e ts i = None"
  by (induction ts arbitrary: i) simp_all

lemma first_match_first:
  "k < length ts \<Longrightarrow> strip (ts ! k) = e \<Longrightarrow> (\<forall>j<k. strip (ts ! j) \<noteq> e)
   \<Longrightarrow> first_match e ts i = Some (i + k)"
proof (induction ts arbitrary: i k)
  case Nil
  then show ?case by simp
next
  case (Cons t ts)
  show ?case
  proof (cases k)
    case 0
    with Cons.prems show ?thesis by simp
  next
    case (Suc k')
    have head: "strip t \<noteq> e"
      using Cons.prems(3) Suc by force
    have "first_match e ts (Suc i) = Some (Suc i + k')"
    proof (rule Cons.IH)
      show "k' < length ts" using Cons.prems(1) Suc by simp
      show "strip (ts ! k') = e" using Cons.prems(2) Suc by simp
      show "\<forall>j<k'. strip (ts ! j) \<noteq> e"
      proof (intro allI impI)
        fix j assume "j < k'"
        then have "Suc j < k" using Suc by simp
        then have "strip ((t # ts) ! Suc j) \<noteq> e" using Cons.prems(3) by blast
        then show "strip (ts ! j) \<noteq> e" by simp
      qed
    qed
    with head Suc show ?thesis by simp
  qed
qed

lemma box_centre_in_range:
  "k < length (ocr_left ocr) \<Longrightarrow> k < length (ocr_top ocr) \<Longrightarrow> k < length (ocr_width ocr)
   \<Longrightarrow> k < length (ocr_height ocr)
   \<Longrightarrow> box_centre ocr k
       = Inr (trunc (of_int (ocr_left ocr ! k) + of_int (ocr_width ocr ! k) / 2),
              trunc (of_int (ocr_top ocr ! k) + of_int (ocr_height ocr ! k) / 2))"
  by (simp add: box_centre_def bind_def list_getitem_def half_way_def)

lemma trunc_half:
  "0 \<le> x \<Longrightarrow> 0 \<le> w \<Longrightarrow> trunc (of_int x + of_int w / 2) = x + w div 2"
proof -
  assume x: "0 \<le> x" and w: "0 \<le> w"
  have "(of_int x + of_int w / 2 :: rat) = of_int (2 * x + w) / of_int 2"
    by (simp add: add_divide_distrib)
  then have "\<lfloor>of_int x + of_int w / 2 :: rat\<rfloor> = (2 * x + w) div 2"
    by (simp only: floor_divide_of_int_eq)
  moreover have "(0::rat) \<le> of_int x + of_int w / 2"
    using x w by simp
  ultimately show ?thesis
    by (simp add: trunc_def)
qed

text \<open>
  Claim C3. With the OCR result of the screenshot at hand, \<open>tap_by_text\<close> raises the
  assertion error that the specification calls \<open>NotFound\<close>, without any tap, when no word
  equals the expected text once stripped. Otherwise let \<open>k\<close> be the first position, in
  the order of the result, whose stripped word equals the expected text: the keyword
  issues exactly one tap, at \<open>int(left + width / 2)\<close> and \<open>int(top + height / 2)\<close> of the
  box at position \<open>k\<close>, and returns \<open>True\<close> when the tap returns. The box is taken within
  the range in which the float arithmetic of the source is exact.
\<close>

theorem tap_by_text_first_exact_match:
  assumes "start_appium_session E dut_name s = (Inr driver, s1)"
    and "save_screenshot_raises E (calls s1) driver = None"
    and "image_to_data E (calls s1 @ [Save_screenshot driver]) = Inr ocr"
  shows "((\<forall>t\<in>set (ocr_text ocr). strip t \<noteq> expected_text) \<longrightarrow>
            tap_by_text E expected_text dut_name s
              = (Inl (AssertionError
                       (str ''Text '' @ [39] @ expected_text @ [39] @ str '' not found via OCR'')),
                 s1\<lparr>calls := calls s1 @ [Save_screenshot driver]\<rparr>))
     \<and> (\<forall>k. k < length (ocr_text ocr) \<and> strip (ocr_text ocr ! k) = expected_text
             \<and> (\<forall>j<k. strip (ocr_text ocr ! j) \<noteq> expected_text)
             \<and> k < length (ocr_left ocr) \<and> k < length (ocr_top ocr)
             \<and> k < length (ocr_width ocr) \<and> k < length (ocr_height ocr)
             \<and> \<bar>ocr_left ocr ! k\<bar> < 2 ^ 51 \<and> \<bar>ocr_width ocr ! k\<bar> < 2 ^ 51
             \<and> \<bar>ocr_top ocr ! k\<bar> < 2 ^ 51 \<and> \<bar>ocr_height ocr ! k\<bar> < 2 ^ 51 \<longrightarrow>
           calls (snd (tap_by_text E expected_text dut_name s))
             = calls s1 @ [Save_screenshot driver,
                  Execute_script driver
                    (ClickGesture
                       (trunc (of_int (ocr_left ocr ! k) + of_int (ocr_width ocr ! k) / 2))
                       (trunc (of_int (ocr_top ocr ! k) + of_int (ocr_height ocr ! k) / 2)))]
           \<and> (\<forall>r. execute_script_result E (calls s1 @ [Save_screenshot driver]) driver
                    (ClickGesture
                       (trunc (of_int (ocr_left ocr ! k) + of_int (ocr_width ocr ! k) / 2))
                       (trunc (of_int (ocr_top ocr ! k) + of_int (ocr_height ocr ! k) / 2)))
                    = Inr r \<longrightarrow>
                 fst (tap_by_text E expected_text dut_name s) = Inr True))"
proof -
  have none: "(\<forall>t\<in>set (ocr_text ocr). strip t \<noteq> expected_text) \<longrightarrow>
            tap_by_text E expected_text dut_name s
              = (Inl (AssertionError
                       (str ''Text '' @ [39] @ expected_text @ [39] @ str '' not found via OCR'')),
                 s1\<lparr>calls := calls s1 @ [Save_screenshot driver]\<rparr>)"
  proof
    assume "\<forall>t\<in>set (ocr_text ocr). strip t \<noteq> expected_text"
    then have "first_match expected_text (ocr_text ocr) 0 = None"
      by (rule first_match_none)
    then show "tap_by_text E expected_text dut_name s
              = (Inl (AssertionError
                       (str ''Text '' @ [39] @ expected_text @ [39] @ str '' not found via OCR'')),
                 s1\<lparr>calls := calls s1 @ [Save_screenshot driver]\<rparr>)"
      using assms by (simp add: tap_by_text_def on_session_run save_screenshot_def)
  qed
  have some: "\<And>k. k < length (ocr_text ocr) \<Longrightarrow> strip (ocr_text ocr ! k) = expected_text
             \<Longrightarrow> (\<forall>j<k. strip (ocr_text ocr ! j) \<noteq> expected_text)
             \<Longrightarrow> k < length (ocr_left ocr) \<Longrightarrow> k < length (ocr_top ocr)
             \<Longrightarrow> k < length (ocr_width ocr) \<Longrightarrow> k < length (ocr_height ocr)
             \<Longrightarrow> calls (snd (tap_by_text E expected_text dut_name s))
             = calls s1 @ [Save_screenshot driver,
                  Execute_script driver
                    (ClickGesture
                       (trunc (of_int (ocr_left ocr ! k) + of_int (ocr_width ocr ! k) / 2))
                       (trunc (of_int (ocr_top ocr ! k) + of_int (ocr_height ocr ! k) / 2)))]
           \<and> (\<forall>r. execute_script_result E (calls s1 @ [Save_screenshot driver]) driver
                    (ClickGesture
                       (trunc (of_int (ocr_left ocr ! k) + of_int (ocr_width ocr ! k) / 2))
                       (trunc (of_int (ocr_top ocr ! k) + of_int (ocr_height ocr ! k) / 2)))
                    = Inr r \<longrightarrow>
                 fst (tap_by_text E expected_text dut_name s) = Inr True)"
  proof -
    fix k
    assume k: "k < length (ocr_text ocr)" "strip (ocr_text ocr ! k) = expected_text"
      "\<forall>j<k. strip (ocr_text ocr ! j) \<noteq> expected_text"
      and b: "k < length (ocr_left ocr)" "k < length (ocr_top ocr)"
      "k < length (ocr_width ocr)" "k < length (ocr_height ocr)"
    have fm: "first_match expected_text (ocr_text ocr) 0 = Some k"
      using first_match_first [OF k, of 0] by simp
    have bc: "box_centre ocr k
       = Inr (trunc (of_int (ocr_left ocr ! k) + of_int (ocr_width ocr ! k) / 2),
              trunc (of_int (ocr_top ocr ! k) + of_int (ocr_height ocr ! k) / 2))"
      using b by (rule box_centre_in_range)
    show "calls (snd (tap_by_text E expected_text dut_name s))
             = calls s1 @ [Save_screenshot driver,
                  Execute_script driver
                    (ClickGesture
                       (trunc (of_int (ocr_left ocr ! k) + of_int (ocr_width ocr ! k) / 2))
                       (trunc (of_int (ocr_top ocr ! k) + of_int (ocr_height ocr ! k) / 2)))]
           \<and> (\<forall>r. execute_script_result E (calls s1 @ [Save_screenshot driver]) driver
                    (ClickGesture
                       (trunc (of_int (ocr_left ocr ! k) + of_int (ocr_width ocr ! k) / 2))
                       (trunc (of_int (ocr_top ocr ! k) + of_int (ocr_height ocr ! k) / 2)))
                    = Inr r \<longrightarrow>
                 fst (tap_by_text E expected_text dut_name s) = Inr True)"
      using assms fm bc
      by (auto simp: tap_by_text_def on_session_run save_screenshot_def execute_script_def
          split: sum.splits)
  qed
  show ?thesis
    using none some by blast
qed

lemma bench_strip:
  "strip [] = []" "strip (str ''Logins'') = str ''Logins''"
  "strip (str '' Login '') = str ''Login''" "strip (str ''Login'') = str ''Login''"
  by (simp_all add: strip_def str_def is_space_def)

theorem tap_by_text_first_exact_match_witness:
  "start_appium_session bench (str ''Phone'') bench_state_open = (Inr 0, bench_state_open)
   \<and> save_screenshot_raises bench (calls bench_state_open) 0 = None
   \<and> image_to_data bench (calls bench_state_open @ [Save_screenshot 0]) = Inr bench_ocr
   \<and> strip (ocr_text bench_ocr ! 1) = str ''Logins''
   \<and> strip (ocr_text bench_ocr ! 2) = str ''Login''
   \<and> strip (ocr_text bench_ocr ! 3) = str ''Login''
   \<and> calls (snd (tap_by_text bench (str ''Login'') (str ''Phone'') bench_state_open))
       = calls bench_state_open @ [Save_screenshot 0, Execute_script 0 (ClickGesture 100 125)]
   \<and> fst (tap_by_text bench (str ''Login'') (str ''Phone'') bench_state_open) = Inr True"
proof -
  have sh: "save_screenshot_raises bench (calls bench_state_open) 0 = None"
    by (simp add: bench_def)
  have oc: "image_to_data bench (calls bench_state_open @ [Save_screenshot 0]) = Inr bench_ocr"
    by (simp add: bench_def)
  have tx: "strip (ocr_text bench_ocr ! 0) = []" "strip (ocr_text bench_ocr ! 1) = str ''Logins''"
    "strip (ocr_text bench_ocr ! 2) = str ''Login''" "strip (ocr_text bench_ocr ! 3) = str ''Login''"
    by (simp_all add: bench_ocr_def bench_strip)
  have before: "\<forall>j<2. strip (ocr_text bench_ocr ! j) \<noteq> str ''Login''"
  proof (intro allI impI)
    fix j :: nat assume "j < 2"
    then have "j = 0 \<or> j = 1" by auto
    then show "strip (ocr_text bench_ocr ! j) \<noteq> str ''Login''"
      using tx by (auto simp: str_def)
  qed
  have box: "ocr_left bench_ocr ! 2 = 40" "ocr_width bench_ocr ! 2 = 121"
    "ocr_top bench_ocr ! 2 = 100" "ocr_height bench_ocr ! 2 = 51"
    "length (ocr_text bench_ocr) = 4" "length (ocr_left bench_ocr) = 4"
    "length (ocr_top bench_ocr) = 4" "length (ocr_width bench_ocr) = 4"
    "length (ocr_height bench_ocr) = 4"
    by (simp_all add: bench_ocr_def)
  have cx: "trunc (of_int 40 + of_int 121 / 2) = 100" "trunc (of_int 100 + of_int 51 / 2) = 125"
    using trunc_half [of 40 121] trunc_half [of 100 51] by simp_all
  have ok: "execute_script_result bench (calls bench_state_open @ [Save_screenshot 0]) 0
              (ClickGesture 100 125) = Inr PNone"
    by (simp add: bench_def)
  note t = tap_by_text_first_exact_match [OF bench_open_phone sh oc, of "str ''Login''"]
  have hyp: "2 < length (ocr_text bench_ocr) \<and> strip (ocr_text bench_ocr ! 2) = str ''Login''
             \<and> (\<forall>j<2. strip (ocr_text bench_ocr ! j) \<noteq> str ''Login'')
             \<and> 2 < length (ocr_left bench_ocr) \<and> 2 < length (ocr_top bench_ocr)
             \<and> 2 < length (ocr_width bench_ocr) \<and> 2 < length (ocr_height bench_ocr)
             \<and> \<bar>ocr_left bench_ocr ! 2\<bar> < 2 ^ 51 \<and> \<bar>ocr_width bench_ocr ! 2\<bar> < 2 ^ 51
             \<and> \<bar>ocr_top bench_ocr ! 2\<bar> < 2 ^ 51 \<and> \<bar>ocr_height bench_ocr ! 2\<bar> < 2 ^ 51"
    using tx before by (simp add: box)
  have r: "calls (snd (tap_by_text bench (str ''Login'') (str ''Phone'') bench_state_open))
             = calls bench_state_open @ [Save_screenshot 0,
                  Execute_script 0
                    (ClickGesture
                       (trunc (of_int (ocr_left bench_ocr ! 2) + of_int (ocr_width bench_ocr ! 2) / 2))
                       (trunc (of_int (ocr_top bench_ocr ! 2) + of_int (ocr_height bench_ocr ! 2) / 2)))]
           \<and> (\<forall>r. execute_script_result bench (calls bench_state_open @ [Save_screenshot 0]) 0
                    (ClickGesture
                       (trunc (of_int (ocr_left bench_ocr ! 2) + of_int (ocr_width bench_ocr ! 2) / 2))
                       (trunc (of_int (ocr_top bench_ocr ! 2) + of_int (ocr_height bench_ocr ! 2) / 2)))
                    = Inr r \<longrightarrow>
                 fst (tap_by_text bench (str ''Login'') (str ''Phone'') bench_state_open) = Inr True)"
    using t hyp by blast
  have r1: "calls (snd (tap_by_text bench (str ''Login'') (str ''Phone'') bench_state_open))
       = calls bench_state_open @ [Save_screenshot 0, Execute_script 0 (ClickGesture 100 125)]"
    using r unfolding box cx by blast
  have r2: "fst (tap_by_text bench (str ''Login'') (str ''Phone'') bench_state_open) = Inr True"
    using r ok unfolding box cx by blast
  show ?thesis
    using bench_open_phone sh oc tx r1 r2 by simp
qed


subsection \<open>Tap by coordinates\<close>

lemma tap_by_coordinates_calls:
  assumes "start_appium_session E dut_name s = (Inr driver, s1)"
    and "calls (snd (tap_by_coordinates E json_name key_name dut_name s)) \<noteq> calls s1"
  shows "isfile E (path_join E [execdir E, str ''Resources'', str ''Coordinates'', json_name])
     \<and> (\<exists>data. json_load E (path_join E [execdir E, str ''Resources'', str ''Coordinates'', json_name])
                  = Inr data
               \<and> py_contains data key_name = Inr True)"
  using assms
  by (auto simp: tap_by_coordinates_def on_session_run Let_def execute_script_def
      split: if_splits sum.splits bool.splits prod.splits)

lemma coordinate_int:
  "map_of d key_name = Some (PDict c) \<Longrightarrow> map_of c k = Some (PInt v)
   \<Longrightarrow> coordinate E (PDict d) key_name k = Inr v"
  by (simp add: coordinate_def bind_def)

text \<open>
  Claim C5. With the session at hand, \<open>tap_by_coordinates\<close> raises an assertion error,
  which the specification calls \<open>ConfigNotFound\<close>, and makes no call to the driver when
  the coordinate file does not exist, and when the file holds an object that lacks the
  key. When the object maps the key to an object with integers under \<open>x\<close> and \<open>y\<close>, the
  keyword makes exactly one call, a tap at these two integers, and reports them when the
  tap returns. No call to the driver is made unless the file exists and holds the key:
  there is no default tap.
\<close>

theorem tap_by_coordinates_from_file:
  assumes "start_appium_session E dut_name s = (Inr driver, s1)"
    and "json_file = path_join E [execdir E, str ''Resources'', str ''Coordinates'', json_name]"
  shows "(\<not> isfile E json_file \<longrightarrow>
            tap_by_coordinates E json_name key_name dut_name s
              = (Inl (AssertionError (str ''JSON file not found: '' @ json_file)), s1))
     \<and> (\<forall>d. isfile E json_file \<and> json_load E json_file = Inr (PDict d)
             \<and> key_name \<notin> fst ` set d \<longrightarrow>
            tap_by_coordinates E json_name key_name dut_name s
              = (Inl (AssertionError (str ''Key '' @ [39] @ key_name @ [39] @ str '' not found'')), s1))
     \<and> (\<forall>d c x y. isfile E json_file \<and> json_load E json_file = Inr (PDict d)
             \<and> map_of d key_name = Some (PDict c)
             \<and> map_of c (str ''x'') = Some (PInt x) \<and> map_of c (str ''y'') = Some (PInt y) \<longrightarrow>
            calls (snd (tap_by_coordinates E json_name key_name dut_name s))
              = calls s1 @ [Execute_script driver (ClickGesture x y)]
            \<and> (\<forall>r. execute_script_result E (calls s1) driver (ClickGesture x y) = Inr r \<longrightarrow>
                  fst (tap_by_coordinates E json_name key_name dut_name s)
                    = Inr (str ''Tapped at ('' @ str_int x @ [44] @ str_int y
                           @ str '') on '' @ dut_name)))
     \<and> (calls (snd (tap_by_coordinates E json_name key_name dut_name s)) \<noteq> calls s1 \<longrightarrow>
            isfile E json_file
            \<and> (\<exists>data. json_load E json_file = Inr data \<and> py_contains data key_name = Inr True))"
proof -
  have nofile: "\<not> isfile E json_file \<longrightarrow>
            tap_by_coordinates E json_name key_name dut_name s
              = (Inl (AssertionError (str ''JSON file not found: '' @ json_file)), s1)"
    using assms by (simp add: tap_by_coordinates_def on_session_run Let_def)
  have nokey: "\<forall>d. isfile E json_file \<and> json_load E json_file = Inr (PDict d)
             \<and> key_name \<notin> fst ` set d \<longrightarrow>
            tap_by_coordinates E json_name key_name dut_name s
              = (Inl (AssertionError (str ''Key '' @ [39] @ key_name @ [39] @ str '' not found'')), s1)"
    using assms by (simp add: tap_by_coordinates_def on_session_run Let_def)
  have tap: "\<And>d c x y. isfile E json_file \<Longrightarrow> json_load E json_file = Inr (PDict d)
             \<Longrightarrow> map_of d key_name = Some (PDict c)
             \<Longrightarrow> map_of c (str ''x'') = Some (PInt x) \<Longrightarrow> map_of c (str ''y'') = Some (PInt y)
             \<Longrightarrow> calls (snd (tap_by_coordinates E json_name key_name dut_name s))
              = calls s1 @ [Execute_script driver (ClickGesture x y)]
            \<and> (\<forall>r. execute_script_result E (calls s1) driver (ClickGesture x y) = Inr r \<longrightarrow>
                  fst (tap_by_coordinates E json_name key_name dut_name s)
                    = Inr (str ''Tapped at ('' @ str_int x @ [44] @ str_int y
                           @ str '') on '' @ dut_name))"
  proof -
    fix d c x y
    assume f: "isfile E json_file" "json_load E json_file = Inr (PDict d)"
      and k: "map_of d key_name = Some (PDict c)"
      and xy: "map_of c (str ''x'') = Some (PInt x)" "map_of c (str ''y'') = Some (PInt y)"
    have mem: "key_name \<in> fst ` set d"
      using k by (metis domI dom_map_of_conv_image_fst)
    have cx: "coordinate E (PDict d) key_name (str ''x'') = Inr x"
      using k xy(1) by (rule coordinate_int)
    have cy: "coordinate E (PDict d) key_name (str ''y'') = Inr y"
      using k xy(2) by (rule coordinate_int)
    show "calls (snd (tap_by_coordinates E json_name key_name dut_name s))
              = calls s1 @ [Execute_script driver (ClickGesture x y)]
            \<and> (\<forall>r. execute_script_result E (calls s1) driver (ClickGesture x y) = Inr r \<longrightarrow>
                  fst (tap_by_coordinates E json_name key_name dut_name s)
                    = Inr (str ''Tapped at ('' @ str_int x @ [44] @ str_int y
                           @ str '') on '' @ dut_name))"
      using assms f mem cx cy
      by (auto simp: tap_by_coordinates_def on_session_run Let_def execute_script_def
          split: sum.splits)
  qed
  have nodefault: "calls (snd (tap_by_coordinates E json_name key_name dut_name s)) \<noteq> calls s1 \<longrightarrow>
            isfile E json_file
            \<and> (\<exists>data. json_load E json_file = Inr data \<and> py_contains data key_name = Inr True)"
    using tap_by_coordinates_calls [OF assms(1)] assms(2) by blast
  show ?thesis
    using nofile nokey tap nodefault by blast
qed

lemma bench_json_file:
  "path_join bench [execdir bench, str ''Resources'', str ''Coordinates'', str ''home.json'']
     = str ''/proj/Resources/Coordinates/home.json''"
  by (simp add: bench_def str_def)

lemma bench_json_file_missing:
  "path_join bench [execdir bench, str ''Resources'', str ''Coordinates'', str ''menu.json'']
     = str ''/proj/Resources/Coordinates/menu.json''"
  by (simp add: bench_def str_def)

theorem tap_by_coordinates_from_file_witness:
  "start_appium_session bench (str ''Phone'') bench_state_open = (Inr 0, bench_state_open)
   \<and> isfile bench (str ''/proj/Resources/Coordinates/home.json'')
   \<and> json_load bench (str ''/proj/Resources/Coordinates/home.json'')
       = Inr (PDict [(str ''login_button'', PDict [(str ''x'', PInt 100), (str ''y'', PInt 200)])])
   \<and> calls (snd (tap_by_coordinates bench (str ''home.json'') (str ''login_button'') (str ''Phone'')
                   bench_state_open))
       = calls bench_state_open @ [Execute_script 0 (ClickGesture 100 200)]
   \<and> fst (tap_by_coordinates bench (str ''home.json'') (str ''login_button'') (str ''Phone'')
            bench_state_open)
       = Inr (str ''Tapped at ('' @ str_int 100 @ [44] @ str_int 200 @ str '') on '' @ str ''Phone'')
   \<and> tap_by_coordinates bench (str ''home.json'') (str ''logout_button'') (str ''Phone'')
        bench_state_open
       = (Inl (AssertionError (str ''Key '' @ [39] @ str ''logout_button'' @ [39] @ str '' not found'')),
          bench_state_open)
   \<and> tap_by_coordinates bench (str ''menu.json'') (str ''login_button'') (str ''Phone'')
        bench_state_open
       = (Inl (AssertionError (str ''JSON file not found: ''
                               @ str ''/proj/Resources/Coordinates/menu.json'')),
          bench_state_open)"
proof -
  have f: "isfile bench (str ''/proj/Resources/Coordinates/home.json'')"
    by (simp add: bench_def)
  have nf: "\<not> isfile bench (str ''/proj/Resources/Coordinates/menu.json'')"
    by (simp add: bench_def str_def)
  have j: "json_load bench (str ''/proj/Resources/Coordinates/home.json'')
       = Inr (PDict [(str ''login_button'', PDict [(str ''x'', PInt 100), (str ''y'', PInt 200)])])"
    by (simp add: bench_def bench_coordinates_def)
  have m: "map_of [(str ''login_button'', PDict [(str ''x'', PInt 100), (str ''y'', PInt 200)])]
             (str ''login_button'') = Some (PDict [(str ''x'', PInt 100), (str ''y'', PInt 200)])"
    "map_of [(str ''x'', PInt 100), (str ''y'', PInt 200)] (str ''x'') = Some (PInt 100)"
    "map_of [(str ''x'', PInt 100), (str ''y'', PInt 200)] (str ''y'') = Some (PInt 200)"
    by (simp_all add: str_def)
  have nk: "str ''logout_button''
      \<notin> fst ` set [(str ''login_button'', PDict [(str ''x'', PInt 100), (str ''y'', PInt 200)])]"
    by (simp add: str_def)
  have ok: "execute_script_result bench (calls bench_state_open) 0 (ClickGesture 100 200) = Inr PNone"
    by (simp add: bench_def)
  note t = tap_by_coordinates_from_file [OF bench_open_phone bench_json_file [symmetric]]
  note u = tap_by_coordinates_from_file [OF bench_open_phone bench_json_file_missing [symmetric]]
  have r1: "calls (snd (tap_by_coordinates bench (str ''home.json'') (str ''login_button'') (str ''Phone'')
                   bench_state_open))
       = calls bench_state_open @ [Execute_script 0 (ClickGesture 100 200)]"
    using t [of "str ''login_button''"] f j m by blast
  have r2: "fst (tap_by_coordinates bench (str ''home.json'') (str ''login_button'') (str ''Phone'')
            bench_state_open)
       = Inr (str ''Tapped at ('' @ str_int 100 @ [44] @ str_int 200 @ str '') on '' @ str ''Phone'')"
    using t [of "str ''login_button''"] f j m ok by blast
  have r3: "tap_by_coordinates bench (str ''home.json'') (str ''logout_button'') (str ''Phone'')
        bench_state_open
       = (Inl (AssertionError (str ''Key '' @ [39] @ str ''logout_button'' @ [39] @ str '' not found'')),
          bench_state_open)"
    using t [of "str ''logout_button''"] f j nk by blast
  have r4: "tap_by_coordinates bench (str ''menu.json'') (str ''login_button'') (str ''Phone'')
        bench_state_open
       = (Inl (AssertionError (str ''JSON file not found: ''
                               @ str ''/proj/Resources/Coordinates/menu.json'')),
          bench_state_open)"
    using u [of "str ''login_button''"] nf by blast
  show ?thesis
    using bench_open_phone f j r1 r2 r3 r4 by blast
qed


subsection \<open>Shell command\<close>

lemma split_scan_token:
  "split_scan cur cs =
     (if cur @ takeWhile (\<lambda>c. \<not> is_space c) cs = []
      then split_scan [] (dropWhile (\<lambda>c. \<not> is_space c) cs)
      else (cur @ takeWhile (\<lambda>c. \<not> is_space c) cs)
             # split_scan [] (dropWhile (\<lambda>c. \<not> is_space c) cs))"
  by (induction cs arbitrary: cur) simp_all

lemma split_scan_skip: "split_scan [] cs = split_scan [] (dropWhile is_space cs)"
  by (induction cs) simp_all

lemma split_blank: "(\<forall>c\<in>set s. is_space c) \<Longrightarrow> split s = []"
proof -
  assume "\<forall>c\<in>set s. is_space c"
  then have dw: "dropWhile is_space s = []"
    by (simp add: dropWhile_eq_Nil_conv)
  have "split_scan [] s = split_scan [] (dropWhile is_space s)"
    by (rule split_scan_skip)
  also have "\<dots> = split_scan [] []"
    by (simp only: dw)
  also have "\<dots> = []"
    by simp
  finally show ?thesis
    by (simp add: split_def)
qed

lemma split_first_token:
  assumes "\<exists>c\<in>set s. \<not> is_space c"
  shows "split s = takeWhile (\<lambda>c. \<not> is_space c) (dropWhile is_space s)
                   # split (dropWhile (\<lambda>c. \<not> is_space c) (dropWhile is_space s))"
proof -
  let ?u = "dropWhile is_space s"
  have ne: "?u \<noteq> []"
    using assms by (simp add: dropWhile_eq_Nil_conv)
  then have "\<not> is_space (hd ?u)"
    by (rule hd_dropWhile)
  then have tok: "takeWhile (\<lambda>c. \<not> is_space c) ?u \<noteq> []"
    using ne by (cases ?u) simp_all
  have "split s = split_scan [] ?u"
    using split_scan_skip [of s] by (simp add: split_def)
  also have "\<dots> = takeWhile (\<lambda>c. \<not> is_space c) ?u
                    # split_scan [] (dropWhile (\<lambda>c. \<not> is_space c) ?u)"
    using tok split_scan_token [of "[]" ?u] by simp
  finally show ?thesis by (simp add: split_def)
qed

lemma split_scan_tokens:
  "t \<in> set (split_scan cur cs) \<Longrightarrow> (\<forall>c\<in>set cur. \<not> is_space c)
   \<Longrightarrow> t \<noteq> [] \<and> (\<forall>c\<in>set t. \<not> is_space c)"
proof (induction cs arbitrary: cur)
  case Nil
  then have "t = cur \<and> cur \<noteq> []"
    by (cases "cur = []") simp_all
  with Nil.prems(2) show ?case by simp
next
  case (Cons c cs)
  show ?case
  proof (cases "is_space c")
    case True
    then have "t \<in> set (split_scan [] cs) \<or> (t = cur \<and> cur \<noteq> [])"
      using Cons.prems(1) by (cases "cur = []") auto
    then show ?thesis
    proof
      assume "t \<in> set (split_scan [] cs)"
      then show ?thesis by (rule Cons.IH) simp
    next
      assume "t = cur \<and> cur \<noteq> []"
      with Cons.prems(2) show ?thesis by simp
    qed
  next
    case False
    then have "t \<in> set (split_scan (cur @ [c]) cs)"
      using Cons.prems(1) by simp
    moreover have "\<forall>x\<in>set (cur @ [c]). \<not> is_space x"
      using False Cons.prems(2) by simp
    ultimately show ?thesis by (rule Cons.IH)
  qed
qed

lemma split_tokens: "t \<in> set (split s) \<Longrightarrow> t \<noteq> [] \<and> (\<forall>c\<in>set t. \<not> is_space c)"
  using split_scan_tokens [of t "[]" s] by (simp add: split_def)

lemma strip_suffix:
  "dropWhile is_space s = strip s @ rev (takeWhile is_space (rev (dropWhile is_space s)))"
proof -
  let ?u = "dropWhile is_space s"
  have "rev (dropWhile is_space (rev ?u)) @ rev (takeWhile is_space (rev ?u))
          = rev (takeWhile is_space (rev ?u) @ dropWhile is_space (rev ?u))"
    by (simp only: rev_append)
  also have "\<dots> = rev (rev ?u)"
    by (simp only: takeWhile_dropWhile_id)
  also have "\<dots> = ?u"
    by (simp only: rev_rev_ident)
  finally show ?thesis
    unfolding strip_def by (rule sym)
qed

lemma strip_parts:
  "\<exists>a b. s = a @ strip s @ b \<and> (\<forall>c\<in>set a. is_space c) \<and> (\<forall>c\<in>set b. is_space c)"
proof -
  let ?u = "dropWhile is_space s"
  let ?b = "rev (takeWhile is_space (rev ?u))"
  have "s = takeWhile is_space s @ ?u"
    by (simp only: takeWhile_dropWhile_id)
  also have "\<dots> = takeWhile is_space s @ strip s @ ?b"
    using strip_suffix [of s] by simp
  finally have "s = takeWhile is_space s @ strip s @ ?b" .
  moreover have "\<forall>c\<in>set (takeWhile is_space s). is_space c"
    by (auto dest: set_takeWhileD)
  moreover have "\<forall>c\<in>set ?b. is_space c"
    by (auto dest: set_takeWhileD)
  ultimately show ?thesis by blast
qed

lemma strip_ends:
  assumes "strip s \<noteq> []"
  shows "\<not> is_space (hd (strip s)) \<and> \<not> is_space (last (strip s))"
proof -
  let ?u = "dropWhile is_space s"
  let ?v = "dropWhile is_space (rev ?u)"
  have v: "?v \<noteq> []"
    using assms by (simp add: strip_def)
  then have "\<not> is_space (hd ?v)"
    by (rule hd_dropWhile)
  then have l: "\<not> is_space (last (strip s))"
    using v by (simp add: strip_def last_rev)
  have u: "?u \<noteq> []"
  proof
    assume e: "?u = []"
    have "?v = []" by (simp only: e rev.simps dropWhile.simps)
    with v show False by contradiction
  qed
  then have h: "\<not> is_space (hd ?u)"
    by (rule hd_dropWhile)
  have "hd ?u = hd (strip s @ rev (takeWhile is_space (rev ?u)))"
    using strip_suffix [of s] by simp
  also have "\<dots> = hd (strip s)"
    using assms by simp
  finally show ?thesis
    using h l by simp
qed

lemma run_command_run:
  assumes "start_appium_session E dut_name s = (Inr driver, s1)"
    and "split command = c # args"
  shows "run_command E command dut_name timeout_ms s
     = ((case execute_script_result E (calls s1) driver (Shell c args timeout_ms) of
           Inl e \<Rightarrow> Inl e
         | Inr (PDict d) \<Rightarrow>
             py_strip (case map_of d (str ''stdout'') of None \<Rightarrow> PStr [] | Some v \<Rightarrow> v)
         | Inr result \<Rightarrow> py_strip result),
        s1\<lparr>calls := calls s1 @ [Execute_script driver (Shell c args timeout_ms)]\<rparr>)"
  using assms
  by (auto simp: run_command_def on_session_run execute_script_def
      split: sum.splits pyval.splits)

text \<open>
  Claim C9, as the code has it. For a command that holds at least one character that is
  not white space, \<open>run_command\<close> splits the command at white space, the first token
  being the first maximal run of other characters; it makes exactly one call, the shell
  bridge with the first token as command and the other tokens as arguments; and it
  returns the stripped \<open>stdout\<close> entry when the driver answers with a dictionary (the
  empty string when the dictionary has no such entry), the stripped answer when the
  driver answers with a string.
\<close>

theorem run_command_sends_tokens:
  assumes "start_appium_session E dut_name s = (Inr driver, s1)"
    and "\<exists>c\<in>set command. \<not> is_space c"
  shows "split command
           = takeWhile (\<lambda>c. \<not> is_space c) (dropWhile is_space command)
             # split (dropWhile (\<lambda>c. \<not> is_space c) (dropWhile is_space command))
     \<and> calls (snd (run_command E command dut_name timeout_ms s))
           = calls s1 @ [Execute_script driver
                           (Shell (hd (split command)) (tl (split command)) timeout_ms)]
     \<and> (\<forall>d v. execute_script_result E (calls s1) driver
                  (Shell (hd (split command)) (tl (split command)) timeout_ms) = Inr (PDict d)
               \<and> map_of d (str ''stdout'') = Some (PStr v) \<longrightarrow>
             fst (run_command E command dut_name timeout_ms s) = Inr (strip v))
     \<and> (\<forall>d. execute_script_result E (calls s1) driver
                  (Shell (hd (split command)) (tl (split command)) timeout_ms) = Inr (PDict d)
               \<and> map_of d (str ''stdout'') = None \<longrightarrow>
             fst (run_command E command dut_name timeout_ms s) = Inr [])
     \<and> (\<forall>v. execute_script_result E (calls s1) driver
                  (Shell (hd (split command)) (tl (split command)) timeout_ms) = Inr (PStr v) \<longrightarrow>
             fst (run_command E command dut_name timeout_ms s) = Inr (strip v))"
proof -
  have sp: "split command
           = takeWhile (\<lambda>c. \<not> is_space c) (dropWhile is_space command)
             # split (dropWhile (\<lambda>c. \<not> is_space c) (dropWhile is_space command))"
    using assms(2) by (rule split_first_token)
  then have parts: "split command = hd (split command) # tl (split command)"
    by simp
  note run = run_command_run [OF assms(1) parts, of timeout_ms]
  have a: "calls (snd (run_command E command dut_name timeout_ms s))
           = calls s1 @ [Execute_script driver
                           (Shell (hd (split command)) (tl (split command)) timeout_ms)]"
    by (simp add: run)
  have b: "\<forall>d v. execute_script_result E (calls s1) driver
                  (Shell (hd (split command)) (tl (split command)) timeout_ms) = Inr (PDict d)
               \<and> map_of d (str ''stdout'') = Some (PStr v) \<longrightarrow>
             fst (run_command E command dut_name timeout_ms s) = Inr (strip v)"
    by (simp add: run)
  have c: "\<forall>d. execute_script_result E (calls s1) driver
                  (Shell (hd (split command)) (tl (split command)) timeout_ms) = Inr (PDict d)
               \<and> map_of d (str ''stdout'') = None \<longrightarrow>
             fst (run_command E command dut_name timeout_ms s) = Inr []"
    by (simp add: run strip_def)
  have d: "\<forall>v. execute_script_result E (calls s1) driver
                  (Shell (hd (split command)) (tl (split command)) timeout_ms) = Inr (PStr v) \<longrightarrow>
             fst (run_command E command dut_name timeout_ms s) = Inr (strip v)"
    by (simp add: run)
  show ?thesis
    using sp a b c d by blast
qed

lemma bench_split: "split (str ''getprop  ro.serialno '') = [str ''getprop'', str ''ro.serialno'']"
  by (simp add: split_def str_def is_space_def)

theorem run_command_sends_tokens_witness:
  "start_appium_session bench (str ''Phone'') bench_state_open = (Inr 0, bench_state_open)
   \<and> 103 \<in> set (str ''getprop  ro.serialno '')
   \<and> is_space 103 = False
   \<and> calls (snd (run_command bench (str ''getprop  ro.serialno '') (str ''Phone'') 5000
                   bench_state_open))
       = calls bench_state_open
         @ [Execute_script 0 (Shell (str ''getprop'') [str ''ro.serialno''] 5000)]
   \<and> fst (run_command bench (str ''getprop  ro.serialno '') (str ''Phone'') 5000 bench_state_open)
       = Inr (str ''emulator-5554'')"
proof -
  have g: "103 \<in> set (str ''getprop  ro.serialno '')"
    by (simp add: str_def)
  have n: "is_space 103 = False"
    by (simp add: is_space_def)
  have ex: "\<exists>c\<in>set (str ''getprop  ro.serialno ''). \<not> is_space c"
    using g n by blast
  have ht: "hd (split (str ''getprop  ro.serialno '')) = str ''getprop''"
    "tl (split (str ''getprop  ro.serialno '')) = [str ''ro.serialno'']"
    by (simp_all add: bench_split)
  have out: "execute_script_result bench (calls bench_state_open) 0
               (Shell (str ''getprop'') [str ''ro.serialno''] 5000)
             = Inr (PDict [(str ''stdout'', PStr (str '' emulator-5554'' @ [10])),
                           (str ''stderr'', PStr [])])"
    by (simp add: bench_def)
  have so: "map_of [(str ''stdout'', PStr (str '' emulator-5554'' @ [10])), (str ''stderr'', PStr [])]
              (str ''stdout'') = Some (PStr (str '' emulator-5554'' @ [10]))"
    by simp
  have st: "strip (str '' emulator-5554'' @ [10]) = str ''emulator-5554''"
    by (simp add: strip_def str_def is_space_def)
  note t = run_command_sends_tokens [OF bench_open_phone ex, of 5000]
  have r1: "calls (snd (run_command bench (str ''getprop  ro.serialno '') (str ''Phone'') 5000
                   bench_state_open))
       = calls bench_state_open
         @ [Execute_script 0 (Shell (str ''getprop'') [str ''ro.serialno''] 5000)]"
    using t unfolding ht by blast
  have r2: "fst (run_command bench (str ''getprop  ro.serialno '') (str ''Phone'') 5000 bench_state_open)
       = Inr (strip (str '' emulator-5554'' @ [10]))"
    using t out so unfolding ht by blast
  show ?thesis
    using bench_open_phone g n r1 r2 unfolding st by blast
qed

text \<open>
  The claim as it is written, for every command that is not empty, fails on a command
  made of one blank: it is not empty, it has no token, and the keyword raises
  \<open>IndexError\<close> before any call to the shell bridge.
\<close>

theorem run_command_blank_counterexample:
  "[32] \<noteq> ([] :: pystr)
   \<and> split [32] = []
   \<and> run_command bench [32] (str ''Phone'') 5000 bench_state_open
       = (Inl IndexError, bench_state_open)"
proof -
  have sp: "split [32] = []"
    by (simp add: split_def is_space_def)
  have "run_command bench [32] (str ''Phone'') 5000 bench_state_open
          = (Inl IndexError, bench_state_open\<lparr>calls := calls bench_state_open\<rparr>)"
    using bench_open_phone sp by (simp add: run_command_def on_session_run)
  then show ?thesis
    using sp by simp
qed

section \<open>Properties of the construction\<close>

lemma has_no_check_attribute: "\<not> has_attribute (str ''_check_runtime_dependencies'')"
  by (simp add: has_attribute_def instance_attributes_def class_attributes_def str_def)

lemma call_check_runtime_dependencies_raises:
  "call_check_runtime_dependencies E
     = (Inl (AttributeError
              ([39] @ str ''AppiumKeywords'' @ [39] @ str '' object has no attribute ''
               @ [39] @ str ''_check_runtime_dependencies'' @ [39])), [])"
  by (simp add: call_check_runtime_dependencies_def has_no_check_attribute)

lemma init_log:
  "snd (init E) = []
   \<or> snd (init E)
       = [(WARN, [9888, 65039] @ str '' Dependency check skipped during initialization:'' @ [10]
                 @ [39] @ str ''AppiumKeywords'' @ [39] @ str '' object has no attribute ''
                 @ [39] @ str ''_check_runtime_dependencies'' @ [39])]"
  by (simp add: init_def call_check_runtime_dependencies_raises Let_def
      split: sum.splits prod.splits)

lemma check_packages_bench: "check_packages bench required_packages = None"
  by (simp add: required_packages_def bench_def)

text \<open>
  Claim C7, on surroundings in which the five libraries can be imported. Called as a
  function, the dependency check finds them and logs that all required dependencies are
  installed. The constructor does not reach it: the name is not an attribute of the
  object, so the call raises \<open>AttributeError\<close> before the check starts, and the one line
  that the construction logs is the warning that the check was skipped.
\<close>

theorem init_skips_dependency_check:
  "check_packages bench required_packages = None
   \<and> fst (check_runtime_dependencies bench) = Inr ()
   \<and> hd (snd (check_runtime_dependencies bench))
       = (INFO, [9989] @ str '' All required Python dependencies are installed'')
   \<and> fst (init bench) = Inr bench_state
   \<and> snd (init bench)
       = [(WARN, [9888, 65039] @ str '' Dependency check skipped during initialization:'' @ [10]
                 @ [39] @ str ''AppiumKeywords'' @ [39] @ str '' object has no attribute ''
                 @ [39] @ str ''_check_runtime_dependencies'' @ [39])]"
proof -
  have a: "fst (check_runtime_dependencies bench) = Inr ()"
    by (simp add: check_runtime_dependencies_def check_packages_bench Let_def)
  have b: "hd (snd (check_runtime_dependencies bench))
       = (INFO, [9989] @ str '' All required Python dependencies are installed'')"
    by (simp add: check_runtime_dependencies_def check_packages_bench Let_def)
  have c: "snd (init bench)
       = [(WARN, [9888, 65039] @ str '' Dependency check skipped during initialization:'' @ [10]
                 @ [39] @ str ''AppiumKeywords'' @ [39] @ str '' object has no attribute ''
                 @ [39] @ str ''_check_runtime_dependencies'' @ [39])]"
    by (simp add: init_def call_check_runtime_dependencies_raises bench_def Let_def)
  show ?thesis
    using check_packages_bench a b c bench_init by blast
qed


end
